theory Spec2Isabelle
  imports Main
begin

section \<open>Session lifecycle and message pipeline of the english-tutor backend\<close>

text \<open>
  The services of the backend (auth service, chat service, agent client, token utilities,
  LLM lookup controller) are embedded as functions over an explicit store. Each
  \<^verbatim>\<open>await prisma...\<close> call of the source is a step on the store; every \<^verbatim>\<open>throw\<close> is
  a value \<open>Inl e\<close>. A service returns its result together with the store it leaves behind,
  because the source writes to the database before some of its throws.

  Conventions of the embedding: a table is the list of its rows in insertion order; row
  ids come from a counter of the store where the source has generated UUIDs; a time is
  the number of milliseconds since the epoch; a text is a \<open>string\<close>, so its characters are
  the code units up to 255; calls run one after the other, each on the store the previous
  one left. The inserts of the chat service carry the rejections of the database: a text
  that holds the character U+0000, and a foreign key without its row.
\<close>

subsection \<open>Basic types, errors, configuration\<close>

type_synonym ident = nat
  \<comment> \<open>row ids; the source uses generated UUID strings, here a counter of the store\<close>

type_synonym time = int
  \<comment> \<open>milliseconds since the epoch, as \<^verbatim>\<open>Date.getTime()\<close>\<close>

datatype error_code =
    VALIDATION_ERROR | INVALID_INPUT | MISSING_REQUIRED_FIELD
  | UNAUTHORIZED | INVALID_CREDENTIALS | TOKEN_EXPIRED | TOKEN_INVALID | ACCOUNT_LOCKED
  | FORBIDDEN | INSUFFICIENT_PERMISSIONS
  | NOT_FOUND | USER_NOT_FOUND | CONVERSATION_NOT_FOUND | MESSAGE_NOT_FOUND
  | CONFLICT | EMAIL_ALREADY_EXISTS | DUPLICATE_RESOURCE
  | TOO_MANY_REQUESTS | RATE_LIMIT_EXCEEDED
  | INTERNAL_SERVER_ERROR | DATABASE_ERROR | AGENT_SERVICE_ERROR

datatype error =
    UnauthorizedError string error_code
  | ForbiddenError string error_code
  | NotFoundError string error_code
  | ConflictError string error_code
  | LibraryError string
  \<comment> \<open>\<open>LibraryError\<close>: any exception that is not an \<^verbatim>\<open>AppError\<close> (Prisma, jsonwebtoken,
      a plain \<^verbatim>\<open>Error\<close>, a \<^verbatim>\<open>TypeError\<close>)\<close>

fun errorCode :: "error \<Rightarrow> error_code option" where
  "errorCode (UnauthorizedError m c) = Some c"
| "errorCode (ForbiddenError m c) = Some c"
| "errorCode (NotFoundError m c) = Some c"
| "errorCode (ConflictError m c) = Some c"
| "errorCode (LibraryError m) = None"

fun errorMessage :: "error \<Rightarrow> string" where
  "errorMessage (UnauthorizedError m c) = m"
| "errorMessage (ForbiddenError m c) = m"
| "errorMessage (NotFoundError m c) = m"
| "errorMessage (ConflictError m c) = m"
| "errorMessage (LibraryError m) = m"

record config =
  accessSecret :: string
  refreshSecret :: string
  accessExpiry :: string
  refreshExpiry :: string
  bcryptRounds :: nat
  maxLoginAttempts :: int
  accountLockoutDuration :: int

definition default_config :: config where
  "default_config =
     \<lparr> accessSecret = ''default-access-secret-change-me'',
       refreshSecret = ''default-refresh-secret-change-me'',
       accessExpiry = ''15m'',
       refreshExpiry = ''7d'',
       bcryptRounds = 12,
       maxLoginAttempts = 5,
       accountLockoutDuration = 900000 \<rparr>"

text \<open>
  The libraries the services call are parameters of the model: \<^verbatim>\<open>bcrypt.hash\<close>,
  \<^verbatim>\<open>bcrypt.compare\<close>, and the time-span parser jsonwebtoken applies to \<^verbatim>\<open>expiresIn\<close>
  (seconds; \<open>None\<close> where \<^verbatim>\<open>jwt.sign\<close> throws on the string).
\<close>

record ext =
  bcrypt_hash :: "string \<Rightarrow> nat \<Rightarrow> string"
  bcrypt_compare :: "string \<Rightarrow> string \<Rightarrow> bool"
  jwt_timespan :: "string \<Rightarrow> int option"

subsection \<open>Decimal rendering and case folding of strings\<close>

definition digit_char :: "nat \<Rightarrow> char" where
  "digit_char d = char_of (48 + d)"

fun dec_nat :: "nat \<Rightarrow> string" where
  "dec_nat n = (if n < 10 then [digit_char n] else dec_nat (n div 10) @ [digit_char (n mod 10)])"

declare dec_nat.simps [simp del]

definition dec :: "int \<Rightarrow> string" where
  \<comment> \<open>what a template literal prints for an integral number\<close>
  "dec i = (if i < 0 then CHR ''-'' # dec_nat (nat (- i)) else dec_nat (nat i))"

definition lower_char :: "char \<Rightarrow> char" where
  "lower_char c =
     (let n = (of_char c :: nat) in
      if (65 \<le> n \<and> n \<le> 90) \<or> (192 \<le> n \<and> n \<le> 222 \<and> n \<noteq> 215)
      then char_of (n + 32) else c)"

definition toLowerCase :: "string \<Rightarrow> string" where
  "toLowerCase s = map lower_char s"

subsection \<open>The store\<close>

record user =
  u_id :: ident
  u_email :: string
  u_password :: string
  u_name :: string
  u_role :: string
  u_emailVerified :: bool
  u_loginAttempts :: int
  u_lockedUntil :: "time option"
  u_createdAt :: time
  u_lastLoginAt :: "time option"
  u_updatedAt :: time

record token_payload =
  userId :: ident
  email :: string
  role :: string

record decoded_token = token_payload +
  iat :: int
  exp :: int

text \<open>
  A bearer token, symbolically: a token signed by \<^verbatim>\<open>jwt.sign\<close> is determined by the key,
  the claims, and the issue and expiry times in whole seconds (HS256 signing is a function
  of exactly these); any other string is \<open>Opaque\<close>.
\<close>

datatype jwt = Jwt string token_payload int int | Opaque string

record refresh_token =
  rt_id :: ident
  rt_token :: jwt
  rt_userId :: ident
  rt_expiresAt :: time
  rt_createdAt :: time
  rt_revokedAt :: "time option"

record conversation =
  c_id :: ident
  c_userId :: ident
  c_title :: string
  c_createdAt :: time
  c_updatedAt :: time

record metadata =
  md_model :: string
  md_tokens :: "int option"
  md_processingTime :: "int option option"
  \<comment> \<open>a number is \<open>Some n\<close>; \<open>None\<close> is \<^verbatim>\<open>NaN\<close>; the outer \<open>None\<close> of
      \<open>md_processingTime\<close> is an absent field\<close>

record message =
  m_id :: ident
  m_conversationId :: ident
  m_role :: string
  m_content :: string
  m_format :: string
  m_status :: string
  m_timestamp :: time
  m_metadata :: "metadata option"

record llm_message =
  lm_role :: string
  lm_content :: string

datatype event =
    UserCreated ident
  | UserUpdated ident
  | RefreshTokenCreated ident
  | RefreshTokenRevoked ident
  | RefreshTokensDeleted nat
  | ConversationCreated ident
  | ConversationUpdated ident
  | MessageCreated ident
  | PasswordHashed
  | PasswordCompared
  | AgentCalled "llm_message list"

text \<open>
  The four tables in insertion order, the id counter, and the log of the effects performed
  so far (database writes, bcrypt calls, the outbound call to the LLM service).
\<close>

record world =
  users :: "user list"
  refreshTokens :: "refresh_token list"
  conversations :: "conversation list"
  messages :: "message list"
  nextId :: nat
  trace :: "event list"

definition empty_world :: world where
  "empty_world = \<lparr> users = [], refreshTokens = [], conversations = [], messages = [],
                    nextId = 0, trace = [] \<rparr>"

definition emit :: "event \<Rightarrow> world \<Rightarrow> world" where
  "emit e w = w\<lparr> trace := trace w @ [e] \<rparr>"

subsection \<open>Chat service: conversation titles\<close>

definition generateConversationTitle :: "string \<Rightarrow> string" where
  "generateConversationTitle message =
     (let maxLength = 50;
          title = take maxLength message
      in if length title < length message then title @ ''...'' else title)"

subsection \<open>Auth service: the credential sweep\<close>

definition sweepable :: "time \<Rightarrow> refresh_token \<Rightarrow> bool" where
  \<comment> \<open>the \<^verbatim>\<open>where\<close> clause of \<^verbatim>\<open>deleteMany\<close>: \<^verbatim>\<open>OR [expiresAt < now, revokedAt not null]\<close>\<close>
  "sweepable now r \<longleftrightarrow> rt_expiresAt r < now \<or> rt_revokedAt r \<noteq> None"

definition cleanupExpiredTokens :: "time \<Rightarrow> world \<Rightarrow> nat \<times> world" where
  "cleanupExpiredTokens now w =
     (let count = length (filter (sweepable now) (refreshTokens w));
          w1 = emit (RefreshTokensDeleted count)
                 (w\<lparr> refreshTokens := filter (\<lambda>r. \<not> sweepable now r) (refreshTokens w) \<rparr>)
      in (count, w1))"

subsection \<open>LLM lookup controller\<close>

record user_info =
  ui_id :: ident
  ui_name :: string
  ui_email :: string
  ui_role :: string
  ui_emailVerified :: bool
  ui_createdAt :: time
  ui_updatedAt :: time

record user_info_response =
  success :: bool
  data :: user_info

definition select_user_info :: "user \<Rightarrow> user_info" where
  \<comment> \<open>the \<^verbatim>\<open>select\<close> of the query\<close>
  "select_user_info u =
     \<lparr> ui_id = u_id u, ui_name = u_name u, ui_email = u_email u, ui_role = u_role u,
       ui_emailVerified = u_emailVerified u, ui_createdAt = u_createdAt u,
       ui_updatedAt = u_updatedAt u \<rparr>"

definition getUserById :: "ident \<Rightarrow> world \<Rightarrow> error + user_info_response" where
  "getUserById uid w =
     (case find (\<lambda>u. u_id u = uid) (users w) of
        None \<Rightarrow> Inl (NotFoundError ''User not found'' USER_NOT_FOUND)
      | Some user \<Rightarrow> Inr \<lparr> success = True, data = select_user_info user \<rparr>)"

subsection \<open>Token utilities\<close>

datatype jwt_error = TokenExpiredError | JsonWebTokenError

definition jwt_sign :: "string \<Rightarrow> int \<Rightarrow> time \<Rightarrow> token_payload \<Rightarrow> jwt" where
  \<comment> \<open>\<^verbatim>\<open>jwt.sign(payload, secret, {expiresIn})\<close>: \<^verbatim>\<open>iat = floor(Date.now() / 1000)\<close>,
      \<^verbatim>\<open>exp = iat + span\<close>\<close>
  "jwt_sign secret span now payload = Jwt secret payload (now div 1000) (now div 1000 + span)"

fun jwt_verify :: "string \<Rightarrow> time \<Rightarrow> jwt \<Rightarrow> jwt_error + decoded_token" where
  "jwt_verify secret now (Opaque s) = Inl JsonWebTokenError"
| "jwt_verify secret now (Jwt k p i e) =
     (if k \<noteq> secret then Inl JsonWebTokenError
      else if now div 1000 \<ge> e then Inl TokenExpiredError
      else Inr \<lparr> userId = userId p, email = email p, role = role p, iat = i, exp = e \<rparr>)"

definition generateAccessToken ::
  "ext \<Rightarrow> config \<Rightarrow> time \<Rightarrow> token_payload \<Rightarrow> error + jwt" where
  "generateAccessToken x cfg now payload =
     (case jwt_timespan x (accessExpiry cfg) of
        None \<Rightarrow> Inl (LibraryError ''invalid expiresIn option'')
      | Some span \<Rightarrow> Inr (jwt_sign (accessSecret cfg) span now payload))"

definition generateRefreshToken ::
  "ext \<Rightarrow> config \<Rightarrow> time \<Rightarrow> token_payload \<Rightarrow> error + jwt" where
  "generateRefreshToken x cfg now payload =
     (case jwt_timespan x (refreshExpiry cfg) of
        None \<Rightarrow> Inl (LibraryError ''invalid expiresIn option'')
      | Some span \<Rightarrow> Inr (jwt_sign (refreshSecret cfg) span now payload))"

definition verifyAccessToken :: "config \<Rightarrow> time \<Rightarrow> jwt \<Rightarrow> error + decoded_token" where
  "verifyAccessToken cfg now token =
     (case jwt_verify (accessSecret cfg) now token of
        Inr decoded \<Rightarrow> Inr decoded
      | Inl TokenExpiredError \<Rightarrow> Inl (UnauthorizedError ''Access token expired'' TOKEN_EXPIRED)
      | Inl JsonWebTokenError \<Rightarrow> Inl (UnauthorizedError ''Invalid access token'' TOKEN_INVALID))"

definition verifyRefreshToken :: "config \<Rightarrow> time \<Rightarrow> jwt \<Rightarrow> error + decoded_token" where
  "verifyRefreshToken cfg now token =
     (case jwt_verify (refreshSecret cfg) now token of
        Inr decoded \<Rightarrow> Inr decoded
      | Inl TokenExpiredError \<Rightarrow> Inl (UnauthorizedError ''Refresh token expired'' TOKEN_EXPIRED)
      | Inl JsonWebTokenError \<Rightarrow> Inl (UnauthorizedError ''Invalid refresh token'' TOKEN_INVALID))"

definition is_digit :: "char \<Rightarrow> bool" where
  "is_digit c \<longleftrightarrow> 48 \<le> (of_char c :: nat) \<and> (of_char c :: nat) \<le> 57"

definition parseInt10 :: "string \<Rightarrow> nat" where
  \<comment> \<open>\<^verbatim>\<open>parseInt(s, 10)\<close> on a string of decimal digits\<close>
  "parseInt10 s = foldl (\<lambda>acc c. 10 * acc + (of_char c - 48)) 0 s"

definition match_expiry :: "string \<Rightarrow> (nat \<times> char) option" where
  \<comment> \<open>\<^verbatim>\<open>expiryString.match(/^(\d+)([smhd])$/)\<close>, with the first group parsed\<close>
  "match_expiry s =
     (if s \<noteq> [] \<and> butlast s \<noteq> [] \<and> list_all is_digit (butlast s)
         \<and> last s \<in> set ''smhd''
      then Some (parseInt10 (butlast s), last s) else None)"

definition unit_millis :: "char \<Rightarrow> int" where
  \<comment> \<open>the \<^verbatim>\<open>switch (unit)\<close>; a day is taken as 24 hours\<close>
  "unit_millis u =
     (if u = CHR ''s'' then 1000
      else if u = CHR ''m'' then 60000
      else if u = CHR ''h'' then 3600000
      else if u = CHR ''d'' then 86400000
      else 0)"

definition getTokenExpiry :: "time \<Rightarrow> string \<Rightarrow> error + time" where
  "getTokenExpiry now expiryString =
     (case match_expiry expiryString of
        None \<Rightarrow> Inl (LibraryError ''Invalid expiry format'')
      | Some (v, u) \<Rightarrow> Inr (now + int v * unit_millis u))"

subsection \<open>Store operations used by the auth service\<close>

definition update_user :: "time \<Rightarrow> ident \<Rightarrow> (user \<Rightarrow> user) \<Rightarrow> world \<Rightarrow> world" where
  \<comment> \<open>\<^verbatim>\<open>prisma.user.update({where: {id}, data})\<close>; the column \<^verbatim>\<open>updatedAt\<close> is stamped
      by the client on every update\<close>
  "update_user now uid f w =
     emit (UserUpdated uid)
       (w\<lparr> users := map (\<lambda>u. if u_id u = uid then (f u)\<lparr> u_updatedAt := now \<rparr> else u)
                        (users w) \<rparr>)"

definition create_user :: "time \<Rightarrow> string \<Rightarrow> string \<Rightarrow> string \<Rightarrow> world \<Rightarrow> user \<times> world" where
  \<comment> \<open>\<^verbatim>\<open>prisma.user.create\<close> with role \<^verbatim>\<open>'user'\<close> and \<^verbatim>\<open>emailVerified: false\<close>; the other
      columns take their schema defaults\<close>
  "create_user now em pw nm w =
     (let user = \<lparr> u_id = nextId w, u_email = em, u_password = pw, u_name = nm,
                   u_role = ''user'', u_emailVerified = False, u_loginAttempts = 0,
                   u_lockedUntil = None, u_createdAt = now, u_lastLoginAt = None,
                   u_updatedAt = now \<rparr>
      in (user, emit (UserCreated (nextId w))
                  (w\<lparr> users := users w @ [user], nextId := Suc (nextId w) \<rparr>)))"

definition create_refresh_token ::
  "time \<Rightarrow> jwt \<Rightarrow> ident \<Rightarrow> time \<Rightarrow> world \<Rightarrow> (error + refresh_token) \<times> world" where
  \<comment> \<open>\<^verbatim>\<open>prisma.refreshToken.create\<close>; the column \<^verbatim>\<open>token\<close> carries a unique index\<close>
  "create_refresh_token now tok uid expires w =
     (if list_ex (\<lambda>r. rt_token r = tok) (refreshTokens w)
      then (Inl (LibraryError ''P2002 unique constraint failed on refresh_tokens.token''), w)
      else
        let row = \<lparr> rt_id = nextId w, rt_token = tok, rt_userId = uid,
                    rt_expiresAt = expires, rt_createdAt = now, rt_revokedAt = None \<rparr>
        in (Inr row, emit (RefreshTokenCreated (nextId w))
                       (w\<lparr> refreshTokens := refreshTokens w @ [row],
                           nextId := Suc (nextId w) \<rparr>)))"

definition revoke_refresh_token :: "time \<Rightarrow> ident \<Rightarrow> world \<Rightarrow> world" where
  \<comment> \<open>\<^verbatim>\<open>prisma.refreshToken.update({where: {id}, data: {revokedAt: new Date()}})\<close>\<close>
  "revoke_refresh_token now rid w =
     emit (RefreshTokenRevoked rid)
       (w\<lparr> refreshTokens :=
             map (\<lambda>r. if rt_id r = rid then r\<lparr> rt_revokedAt := Some now \<rparr> else r)
                 (refreshTokens w) \<rparr>)"

subsection \<open>Auth service\<close>

record register_data =
  rd_email :: string
  rd_password :: string
  rd_name :: string

record login_data =
  ld_email :: string
  ld_password :: string

record auth_response =
  ar_id :: ident
  ar_email :: string
  ar_name :: string
  ar_role :: string
  ar_emailVerified :: bool
  accessToken :: jwt
  refreshToken :: jwt

definition remainingTime :: "time \<Rightarrow> time \<Rightarrow> int" where
  \<comment> \<open>\<^verbatim>\<open>Math.ceil((lockedUntil.getTime() - Date.now()) / 1000 / 60)\<close>\<close>
  "remainingTime lockedUntil now = - ((now - lockedUntil) div 60000)"

definition checkAccountLock ::
  "time \<Rightarrow> time \<Rightarrow> time \<Rightarrow> user \<Rightarrow> world \<Rightarrow> (error + unit) \<times> world" where
  \<comment> \<open>\<open>t1\<close>, \<open>t2\<close>, \<open>t3\<close> are the three readings of the clock, in source order\<close>
  "checkAccountLock t1 t2 t3 user w =
     (case u_lockedUntil user of
        None \<Rightarrow> (Inr (), w)
      | Some lockedUntil \<Rightarrow>
          if lockedUntil > t1 then
            (Inl (UnauthorizedError
                    (''Account is locked. Please try again in ''
                       @ dec (remainingTime lockedUntil t2) @ '' minutes'')
                    ACCOUNT_LOCKED), w)
          else if lockedUntil \<le> t3 then
            (Inr (), update_user t3 (u_id user)
                       (\<lambda>u. u\<lparr> u_loginAttempts := 0, u_lockedUntil := None \<rparr>) w)
          else (Inr (), w))"

definition handleFailedLogin ::
  "config \<Rightarrow> time \<Rightarrow> ident \<Rightarrow> int \<Rightarrow> world \<Rightarrow> (error + unit) \<times> world" where
  "handleFailedLogin cfg now uid currentAttempts w =
     (let attempts = currentAttempts + 1 in
      if attempts \<ge> maxLoginAttempts cfg then
        (let lockUntil = now + accountLockoutDuration cfg in
         (Inl (UnauthorizedError
                 ''Too many failed login attempts. Account locked for 15 minutes''
                 ACCOUNT_LOCKED),
          update_user now uid
            (\<lambda>u. u\<lparr> u_loginAttempts := attempts, u_lockedUntil := Some lockUntil \<rparr>) w))
      else
        (Inr (), update_user now uid (\<lambda>u. u\<lparr> u_loginAttempts := attempts \<rparr>) w))"

definition register ::
  "ext \<Rightarrow> config \<Rightarrow> time \<Rightarrow> register_data \<Rightarrow> world \<Rightarrow> (error + auth_response) \<times> world" where
  "register x cfg now d w =
     (case find (\<lambda>u. u_email u = toLowerCase (rd_email d)) (users w) of
        Some existingUser \<Rightarrow>
          (Inl (ConflictError ''Email already registered'' EMAIL_ALREADY_EXISTS), w)
      | None \<Rightarrow>
          let hashedPassword = bcrypt_hash x (rd_password d) (bcryptRounds cfg);
              (user, w1) = create_user now (toLowerCase (rd_email d)) hashedPassword (rd_name d)
                             (emit PasswordHashed w);
              tokenPayload = \<lparr> userId = u_id user, email = u_email user, role = u_role user \<rparr>
          in
          case generateAccessToken x cfg now tokenPayload of
            Inl e \<Rightarrow> (Inl e, w1)
          | Inr accessTok \<Rightarrow>
          case generateRefreshToken x cfg now tokenPayload of
            Inl e \<Rightarrow> (Inl e, w1)
          | Inr refreshTok \<Rightarrow>
          case getTokenExpiry now (refreshExpiry cfg) of
            Inl e \<Rightarrow> (Inl e, w1)
          | Inr expires \<Rightarrow>
          case create_refresh_token now refreshTok (u_id user) expires w1 of
            (Inl e, w2) \<Rightarrow> (Inl e, w2)
          | (Inr row, w2) \<Rightarrow>
              (Inr \<lparr> ar_id = u_id user, ar_email = u_email user, ar_name = u_name user,
                     ar_role = u_role user, ar_emailVerified = u_emailVerified user,
                     accessToken = accessTok, refreshToken = refreshTok \<rparr>, w2))"

definition login ::
  "ext \<Rightarrow> config \<Rightarrow> time \<Rightarrow> time \<Rightarrow> time \<Rightarrow> time \<Rightarrow> login_data \<Rightarrow> world
     \<Rightarrow> (error + auth_response) \<times> world" where
  \<comment> \<open>\<open>t1\<close>, \<open>t2\<close>, \<open>t3\<close>: the three readings of the clock inside \<open>checkAccountLock\<close>, in
      source order; \<open>now\<close>: the clock of the rest of the call\<close>
  "login x cfg t1 t2 t3 now d w =
     (case find (\<lambda>u. u_email u = toLowerCase (ld_email d)) (users w) of
        None \<Rightarrow> (Inl (UnauthorizedError ''Invalid email or password'' INVALID_CREDENTIALS), w)
      | Some user \<Rightarrow>
          case checkAccountLock t1 t2 t3 user w of
            (Inl e, w1) \<Rightarrow> (Inl e, w1)
          | (Inr u, w1) \<Rightarrow>
          let isPasswordValid = bcrypt_compare x (ld_password d) (u_password user);
              w2 = emit PasswordCompared w1
          in
          if \<not> isPasswordValid then
            (case handleFailedLogin cfg now (u_id user) (u_loginAttempts user) w2 of
               (Inl e, w3) \<Rightarrow> (Inl e, w3)
             | (Inr u, w3) \<Rightarrow>
                 (Inl (UnauthorizedError ''Invalid email or password'' INVALID_CREDENTIALS), w3))
          else
          let w3 = update_user now (u_id user)
                     (\<lambda>u. u\<lparr> u_loginAttempts := 0, u_lockedUntil := None,
                              u_lastLoginAt := Some now \<rparr>) w2;
              tokenPayload = \<lparr> userId = u_id user, email = u_email user, role = u_role user \<rparr>
          in
          case generateAccessToken x cfg now tokenPayload of
            Inl e \<Rightarrow> (Inl e, w3)
          | Inr accessTok \<Rightarrow>
          case generateRefreshToken x cfg now tokenPayload of
            Inl e \<Rightarrow> (Inl e, w3)
          | Inr refreshTok \<Rightarrow>
          case getTokenExpiry now (refreshExpiry cfg) of
            Inl e \<Rightarrow> (Inl e, w3)
          | Inr expires \<Rightarrow>
          case create_refresh_token now refreshTok (u_id user) expires w3 of
            (Inl e, w4) \<Rightarrow> (Inl e, w4)
          | (Inr row, w4) \<Rightarrow>
              (Inr \<lparr> ar_id = u_id user, ar_email = u_email user, ar_name = u_name user,
                     ar_role = u_role user, ar_emailVerified = u_emailVerified user,
                     accessToken = accessTok, refreshToken = refreshTok \<rparr>, w4))"

definition refreshAccessToken ::
  "ext \<Rightarrow> config \<Rightarrow> time \<Rightarrow> jwt \<Rightarrow> world \<Rightarrow> (error + jwt \<times> jwt) \<times> world" where
  \<comment> \<open>returns the pair (access token, refresh token)\<close>
  "refreshAccessToken x cfg now refreshTokenString w =
     (case verifyRefreshToken cfg now refreshTokenString of
        Inl e \<Rightarrow> (Inl e, w)
      | Inr decoded \<Rightarrow>
      case find (\<lambda>r. rt_token r = refreshTokenString) (refreshTokens w) of
        None \<Rightarrow> (Inl (UnauthorizedError ''Invalid refresh token'' TOKEN_INVALID), w)
      | Some storedToken \<Rightarrow>
      case find (\<lambda>u. u_id u = rt_userId storedToken) (users w) of
        None \<Rightarrow> (Inl (LibraryError ''inconsistent query result: required relation user''), w)
      | Some storedUser \<Rightarrow>
          if rt_revokedAt storedToken \<noteq> None then
            (Inl (UnauthorizedError ''Refresh token has been revoked'' TOKEN_INVALID), w)
          else if rt_expiresAt storedToken < now then
            (Inl (UnauthorizedError ''Refresh token expired'' TOKEN_EXPIRED), w)
          else
          let w1 = revoke_refresh_token now (rt_id storedToken) w;
              tokenPayload = \<lparr> userId = u_id storedUser, email = u_email storedUser,
                               role = u_role storedUser \<rparr>
          in
          case generateAccessToken x cfg now tokenPayload of
            Inl e \<Rightarrow> (Inl e, w1)
          | Inr newAccessToken \<Rightarrow>
          case generateRefreshToken x cfg now tokenPayload of
            Inl e \<Rightarrow> (Inl e, w1)
          | Inr newRefreshToken \<Rightarrow>
          case getTokenExpiry now (refreshExpiry cfg) of
            Inl e \<Rightarrow> (Inl e, w1)
          | Inr expires \<Rightarrow>
          case create_refresh_token now newRefreshToken (u_id storedUser) expires w1 of
            (Inl e, w2) \<Rightarrow> (Inl e, w2)
          | (Inr row, w2) \<Rightarrow> (Inr (newAccessToken, newRefreshToken), w2))"

definition logout :: "time \<Rightarrow> jwt \<Rightarrow> world \<Rightarrow> world" where
  "logout now refreshTokenString w =
     (case find (\<lambda>r. rt_token r = refreshTokenString) (refreshTokens w) of
        None \<Rightarrow> w
      | Some token \<Rightarrow>
          if rt_revokedAt token = None then revoke_refresh_token now (rt_id token) w else w)"

subsection \<open>Regular expressions of the agent client\<close>

text \<open>
  The thirteen patterns of \<^verbatim>\<open>detectMessageFormat\<close> are concatenations of single
  characters, character classes, quantified classes and the anchors \<^verbatim>\<open>^\<close> and \<^verbatim>\<open>$\<close> under
  the flag \<^verbatim>\<open>m\<close>. \<^verbatim>\<open>RegExp.test\<close> asks whether the pattern matches at some start position;
  for such patterns a lazy quantifier accepts the same texts as a greedy one. A text is a
  \<open>string\<close>: code units up to 255.
\<close>

definition is_line_terminator :: "char \<Rightarrow> bool" where
  "is_line_terminator c \<longleftrightarrow> c = CHR 0x0A \<or> c = CHR 0x0D"

definition is_space :: "char \<Rightarrow> bool" where
  \<comment> \<open>\<^verbatim>\<open>\s\<close>: tab, line feed, vertical tab, form feed, carriage return, space, no-break space\<close>
  "is_space c \<longleftrightarrow>
     c \<in> set [CHR 0x09, CHR 0x0A, CHR 0x0B, CHR 0x0C, CHR 0x0D, CHR 0x20, CHR 0xA0]"

datatype cclass =
    Lit char
  | AnyChar         \<comment> \<open>\<^verbatim>\<open>.\<close> under the flag \<^verbatim>\<open>s\<close>, and \<^verbatim>\<open>[\s\S]\<close>\<close>
  | NonNewline      \<comment> \<open>\<^verbatim>\<open>.\<close> without the flag \<^verbatim>\<open>s\<close>\<close>
  | Whitespace      \<comment> \<open>\<^verbatim>\<open>\s\<close>\<close>
  | Digit           \<comment> \<open>\<^verbatim>\<open>\d\<close>\<close>
  | OneOf string    \<comment> \<open>\<^verbatim>\<open>[...]\<close>\<close>
  | NoneOf string   \<comment> \<open>\<^verbatim>\<open>[^...]\<close>\<close>

fun cmatch :: "cclass \<Rightarrow> char \<Rightarrow> bool" where
  "cmatch (Lit a) c \<longleftrightarrow> c = a"
| "cmatch AnyChar c \<longleftrightarrow> True"
| "cmatch NonNewline c \<longleftrightarrow> \<not> is_line_terminator c"
| "cmatch Whitespace c \<longleftrightarrow> is_space c"
| "cmatch Digit c \<longleftrightarrow> is_digit c"
| "cmatch (OneOf cs) c \<longleftrightarrow> c \<in> set cs"
| "cmatch (NoneOf cs) c \<longleftrightarrow> c \<notin> set cs"

datatype item =
    Char cclass                       \<comment> \<open>one character of the class\<close>
  | Repeat nat "nat option" cclass    \<comment> \<open>at least, at most (\<open>None\<close>: unbounded) characters\<close>
  | LineStart                         \<comment> \<open>\<^verbatim>\<open>^\<close> under the flag \<^verbatim>\<open>m\<close>\<close>
  | LineEnd                           \<comment> \<open>\<^verbatim>\<open>$\<close> under the flag \<^verbatim>\<open>m\<close>\<close>

type_synonym pattern = "item list"

text \<open>
  \<open>match_here pat prev s\<close>: the pattern matches a prefix of \<open>s\<close>, where \<open>prev\<close> is the
  character before \<open>s\<close> in the text (\<open>None\<close> at the start of the text).
\<close>

fun match_here :: "pattern \<Rightarrow> char option \<Rightarrow> string \<Rightarrow> bool" where
  "match_here [] prev s \<longleftrightarrow> True"
| "match_here (LineStart # r) prev s \<longleftrightarrow>
     (case prev of None \<Rightarrow> True | Some c \<Rightarrow> is_line_terminator c) \<and> match_here r prev s"
| "match_here (LineEnd # r) prev s \<longleftrightarrow>
     (case s of [] \<Rightarrow> True | c # cs \<Rightarrow> is_line_terminator c) \<and> match_here r prev s"
| "match_here (Char k # r) prev s \<longleftrightarrow>
     (case s of [] \<Rightarrow> False | c # cs \<Rightarrow> cmatch k c \<and> match_here r (Some c) cs)"
| "match_here (Repeat lo hi k # r) prev s \<longleftrightarrow>
     (lo = 0 \<and> match_here r prev s) \<or>
     (case s of
        [] \<Rightarrow> False
      | c # cs \<Rightarrow>
          cmatch k c \<and> hi \<noteq> Some 0 \<and>
          match_here (Repeat (lo - 1) (map_option (\<lambda>h. h - 1) hi) k # r) (Some c) cs)"

fun search :: "pattern \<Rightarrow> char option \<Rightarrow> string \<Rightarrow> bool" where
  "search pat prev [] \<longleftrightarrow> match_here pat prev []"
| "search pat prev (c # cs) \<longleftrightarrow> match_here pat prev (c # cs) \<or> search pat (Some c) cs"

definition regex_test :: "pattern \<Rightarrow> string \<Rightarrow> bool" where
  \<comment> \<open>\<^verbatim>\<open>pattern.test(content)\<close>\<close>
  "regex_test pat s \<longleftrightarrow> search pat None s"

definition lits :: "string \<Rightarrow> pattern" where
  "lits cs = map (\<lambda>c. Char (Lit c)) cs"

definition codeBlockPattern :: pattern where
  \<comment> \<open>triple backtick, \<^verbatim>\<open>[\s\S]*?\<close>, triple backtick\<close>
  "codeBlockPattern = lits [CHR 0x60, CHR 0x60, CHR 0x60] @ [Repeat 0 None AnyChar]
                        @ lits [CHR 0x60, CHR 0x60, CHR 0x60]"

definition inlineCodePattern :: pattern where
  \<comment> \<open>backtick, one or more characters that are not a backtick, backtick\<close>
  "inlineCodePattern = [Char (Lit (CHR 0x60)), Repeat 1 None (NoneOf [CHR 0x60]),
                        Char (Lit (CHR 0x60))]"

definition headerPattern :: pattern where
  \<comment> \<open>\<^verbatim>\<open>/^#{1,6}\s/m\<close>\<close>
  "headerPattern = [LineStart, Repeat 1 (Some 6) (Lit CHR ''#''), Char Whitespace]"

definition boldPattern :: pattern where
  \<comment> \<open>\<^verbatim>\<open>/\*\*.*?\*\*/s\<close>\<close>
  "boldPattern = lits ''**'' @ [Repeat 0 None AnyChar] @ lits ''**''"

definition italicPattern :: pattern where
  \<comment> \<open>\<^verbatim>\<open>/\*.*?\*/s\<close>\<close>
  "italicPattern = lits ''*'' @ [Repeat 0 None AnyChar] @ lits ''*''"

definition italicAltPattern :: pattern where
  \<comment> \<open>\<^verbatim>\<open>/_.*?_/s\<close>\<close>
  "italicAltPattern = lits ''_'' @ [Repeat 0 None AnyChar] @ lits ''_''"

definition unorderedListPattern :: pattern where
  \<comment> \<open>\<^verbatim>\<open>/^\s*[-*+]\s/m\<close>\<close>
  "unorderedListPattern = [LineStart, Repeat 0 None Whitespace, Char (OneOf ''-*+''),
                           Char Whitespace]"

definition orderedListPattern :: pattern where
  \<comment> \<open>\<^verbatim>\<open>/^\s*\d+\.\s/m\<close>\<close>
  "orderedListPattern = [LineStart, Repeat 0 None Whitespace, Repeat 1 None Digit,
                         Char (Lit CHR ''.''), Char Whitespace]"

definition linkPattern :: pattern where
  \<comment> \<open>\<^verbatim>\<open>/\[.*?\]\(.*?\)/\<close>\<close>
  "linkPattern = lits ''['' @ [Repeat 0 None NonNewline] @ lits '']('' @
                 [Repeat 0 None NonNewline] @ lits '')''"

definition blockquotePattern :: pattern where
  \<comment> \<open>\<^verbatim>\<open>/^\s*>\s/m\<close>\<close>
  "blockquotePattern = [LineStart, Repeat 0 None Whitespace, Char (Lit CHR ''>''),
                        Char Whitespace]"

definition tablePattern :: pattern where
  \<comment> \<open>\<^verbatim>\<open>/\|.*\|.*\|/m\<close>\<close>
  "tablePattern = lits ''|'' @ [Repeat 0 None NonNewline] @ lits ''|'' @
                  [Repeat 0 None NonNewline] @ lits ''|''"

definition horizontalRulePattern :: pattern where
  \<comment> \<open>\<^verbatim>\<open>/^---+$/m\<close>\<close>
  "horizontalRulePattern = [LineStart] @ lits ''--'' @ [Repeat 1 None (Lit CHR ''-''), LineEnd]"

definition strikethroughPattern :: pattern where
  \<comment> \<open>\<^verbatim>\<open>/~~.*?~~/s\<close>\<close>
  "strikethroughPattern = lits ''~~'' @ [Repeat 0 None AnyChar] @ lits ''~~''"

definition markdownPatterns :: "pattern list" where
  "markdownPatterns =
     [codeBlockPattern, inlineCodePattern, headerPattern, boldPattern, italicPattern,
      italicAltPattern, unorderedListPattern, orderedListPattern, linkPattern,
      blockquotePattern, tablePattern, horizontalRulePattern, strikethroughPattern]"

definition detectMessageFormat :: "string \<Rightarrow> string" where
  "detectMessageFormat content =
     (let hasMarkdown = list_ex (\<lambda>pat. regex_test pat content) markdownPatterns
      in if hasMarkdown then ''markdown'' else ''text'')"

subsection \<open>Values of a parsed response body\<close>

datatype jsval =
    JUndefined | JNull | JBool bool | JNum int | JStr string
  | JArr "jsval list" | JObj "(string \<times> jsval) list"
  \<comment> \<open>numbers are the integral ones; an object is the list of its own properties\<close>

fun join :: "string \<Rightarrow> string list \<Rightarrow> string" where
  "join sep [] = []"
| "join sep [x] = x"
| "join sep (x # y # ys) = x @ sep @ join sep (y # ys)"

fun js_to_string :: "jsval \<Rightarrow> string" where
  \<comment> \<open>the coercion \<^verbatim>\<open>RegExp.test\<close> applies to its argument\<close>
  "js_to_string JUndefined = ''undefined''"
| "js_to_string JNull = ''null''"
| "js_to_string (JBool b) = (if b then ''true'' else ''false'')"
| "js_to_string (JNum n) = dec n"
| "js_to_string (JStr s) = s"
| "js_to_string (JArr xs) =
     join '','' (map (\<lambda>v. if v = JNull \<or> v = JUndefined then [] else js_to_string v) xs)"
| "js_to_string (JObj kvs) = ''[object Object]''"

fun js_get :: "jsval \<Rightarrow> string \<Rightarrow> error + jsval" where
  \<comment> \<open>reading one of the properties \<^verbatim>\<open>response\<close>, \<^verbatim>\<open>length\<close>, \<^verbatim>\<open>iterations\<close>,
      \<^verbatim>\<open>tool_calls_made\<close>; a read on \<^verbatim>\<open>undefined\<close> or \<^verbatim>\<open>null\<close> throws\<close>
  "js_get JUndefined k = Inl (LibraryError ''TypeError: cannot read properties of undefined'')"
| "js_get JNull k = Inl (LibraryError ''TypeError: cannot read properties of null'')"
| "js_get (JObj kvs) k = Inr (case map_of kvs k of None \<Rightarrow> JUndefined | Some v \<Rightarrow> v)"
| "js_get (JStr s) k = Inr (if k = ''length'' then JNum (int (length s)) else JUndefined)"
| "js_get (JArr xs) k = Inr (if k = ''length'' then JNum (int (length xs)) else JUndefined)"
| "js_get (JBool b) k = Inr JUndefined"
| "js_get (JNum n) k = Inr JUndefined"

fun js_to_number :: "jsval \<Rightarrow> int option" where
  \<comment> \<open>the operand of an arithmetic operator; \<open>None\<close> is \<^verbatim>\<open>NaN\<close>, and also stands for the
      numbers a string, an array or an object coerce to, which are not computed here\<close>
  "js_to_number (JNum n) = Some n"
| "js_to_number (JBool b) = Some (if b then 1 else 0)"
| "js_to_number JNull = Some 0"
| "js_to_number v = None"

subsection \<open>Agent client\<close>

record agent_response =
  ag_content :: jsval
  ag_format :: string
  ag_metadata :: metadata

text \<open>
  What the outbound \<^verbatim>\<open>fetch\<close> does is given to the model: it rejects (network failure,
  or the abort of \<^verbatim>\<open>AbortSignal.timeout\<close>), or it resolves to a response with its \<^verbatim>\<open>ok\<close>
  flag and the result of \<^verbatim>\<open>response.json()\<close> (\<open>None\<close> where that rejects: the body is not
  JSON, or the read is aborted).
\<close>

datatype fetch_outcome = FetchRejected | FetchResponse bool "jsval option"

definition fallback_content :: string where
  "fallback_content =
     ''I'' @ [CHR 0x27] @ ''m having trouble processing your message right now. Please try again.''"

definition fallback_response :: agent_response where
  "fallback_response =
     \<lparr> ag_content = JStr fallback_content, ag_format = ''text'',
       ag_metadata = \<lparr> md_model = ''llm-backend-v1'', md_tokens = Some 0,
                       md_processingTime = None \<rparr> \<rparr>"

definition transformMessagesToLLMFormat :: "message list \<Rightarrow> string \<Rightarrow> llm_message list" where
  "transformMessagesToLLMFormat conversationHistory currentMessage =
     map (\<lambda>msg. \<lparr> lm_role = m_role msg, lm_content = m_content msg \<rparr>) conversationHistory
       @ [\<lparr> lm_role = ''user'', lm_content = currentMessage \<rparr>]"

definition agent_sendMessage ::
  "fetch_outcome \<Rightarrow> ident \<Rightarrow> string \<Rightarrow> message list \<Rightarrow> world \<Rightarrow> agent_response \<times> world" where
  \<comment> \<open>\<^verbatim>\<open>sendMessage\<close> of the agent client; every \<open>fallback_response\<close> is the \<^verbatim>\<open>catch\<close> block\<close>
  "agent_sendMessage outcome uid message conversationHistory w =
     (let msgs = transformMessagesToLLMFormat conversationHistory message;
          w1 = emit (AgentCalled msgs) w
      in
      case outcome of
        FetchRejected \<Rightarrow> (fallback_response, w1)
      | FetchResponse ok body \<Rightarrow>
          if \<not> ok then (fallback_response, w1)
          else
          case body of
            None \<Rightarrow> (fallback_response, w1)
          | Some d \<Rightarrow>
          case js_get d ''response'' of
            Inl e \<Rightarrow> (fallback_response, w1)
          | Inr response \<Rightarrow>
          let format = detectMessageFormat (js_to_string response) in
          case js_get d ''tool_calls_made'' of
            Inl e \<Rightarrow> (fallback_response, w1)
          | Inr toolCalls \<Rightarrow>
          case js_get d ''iterations'' of
            Inl e \<Rightarrow> (fallback_response, w1)
          | Inr iterations \<Rightarrow>
          case js_get response ''length'' of
            Inl e \<Rightarrow> (fallback_response, w1)
          | Inr len \<Rightarrow>
              (\<lparr> ag_content = response, ag_format = format,
                 ag_metadata =
                   \<lparr> md_model = ''llm-backend-v1'',
                     md_tokens = map_option (\<lambda>n. n div 4) (js_to_number len),
                     md_processingTime =
                       Some (map_option (\<lambda>n. n * 100) (js_to_number iterations)) \<rparr> \<rparr>, w1))"

subsection \<open>Chat service\<close>

record send_message_data =
  smd_userId :: ident
  smd_message :: string
  smd_conversationId :: "ident option"

record message_response =
  mr_conversationId :: ident
  userMessage :: message
  assistantMessage :: message

definition has_nul :: "string \<Rightarrow> bool" where
  \<comment> \<open>the text holds the character U+0000, which a PostgreSQL text column does not store\<close>
  "has_nul s \<longleftrightarrow> CHR 0x00 \<in> set s"

definition create_conversation ::
  "time \<Rightarrow> ident \<Rightarrow> string \<Rightarrow> world \<Rightarrow> (error + conversation) \<times> world" where
  \<comment> \<open>\<^verbatim>\<open>prisma.conversation.create\<close>; the insert throws for a title that holds U+0000 and
      for an owner without a user row (foreign key \<^verbatim>\<open>conversations_userId_fkey\<close>)\<close>
  "create_conversation now uid title w =
     (if has_nul title then
        (Inl (LibraryError ''invalid byte sequence for encoding UTF8: 0x00''), w)
      else if \<not> list_ex (\<lambda>u. u_id u = uid) (users w) then
        (Inl (LibraryError ''P2003 foreign key constraint failed on conversations.userId''), w)
      else
        let row = \<lparr> c_id = nextId w, c_userId = uid, c_title = title, c_createdAt = now,
                    c_updatedAt = now \<rparr>
        in (Inr row, emit (ConversationCreated (nextId w))
                       (w\<lparr> conversations := conversations w @ [row],
                           nextId := Suc (nextId w) \<rparr>)))"

definition touch_conversation :: "time \<Rightarrow> ident \<Rightarrow> world \<Rightarrow> world" where
  \<comment> \<open>\<^verbatim>\<open>prisma.conversation.update({where: {id}, data: {updatedAt: new Date()}})\<close>\<close>
  "touch_conversation now cid w =
     emit (ConversationUpdated cid)
       (w\<lparr> conversations :=
             map (\<lambda>c. if c_id c = cid then c\<lparr> c_updatedAt := now \<rparr> else c) (conversations w) \<rparr>)"

definition create_message ::
  "time \<Rightarrow> ident \<Rightarrow> string \<Rightarrow> jsval \<Rightarrow> string \<Rightarrow> metadata option \<Rightarrow> world
     \<Rightarrow> (error + message) \<times> world" where
  \<comment> \<open>\<^verbatim>\<open>prisma.message.create\<close> with status \<^verbatim>\<open>'sent'\<close>; the column \<^verbatim>\<open>content\<close> is text: the
      client rejects a value that is not a string, and the insert throws for a text that
      holds U+0000 and for a conversation id without a row (foreign key
      \<^verbatim>\<open>messages_conversationId_fkey\<close>)\<close>
  "create_message now cid r content format md w =
     (case content of
        JStr text \<Rightarrow>
          if has_nul text then
            (Inl (LibraryError ''invalid byte sequence for encoding UTF8: 0x00''), w)
          else if \<not> list_ex (\<lambda>c. c_id c = cid) (conversations w) then
            (Inl (LibraryError
                    ''P2003 foreign key constraint failed on messages.conversationId''), w)
          else
            let row = \<lparr> m_id = nextId w, m_conversationId = cid, m_role = r,
                        m_content = text, m_format = format, m_status = ''sent'',
                        m_timestamp = now, m_metadata = md \<rparr>
            in (Inr row, emit (MessageCreated (nextId w))
                           (w\<lparr> messages := messages w @ [row], nextId := Suc (nextId w) \<rparr>))
      | _ \<Rightarrow> (Inl (LibraryError ''PrismaClientValidationError: content: expected String''), w))"

definition conversation_messages :: "ident \<Rightarrow> world \<Rightarrow> message list" where
  \<comment> \<open>\<^verbatim>\<open>include: { messages: { orderBy: { timestamp: 'asc' } } }\<close>\<close>
  "conversation_messages cid w =
     sort_key m_timestamp (filter (\<lambda>m. m_conversationId m = cid) (messages w))"

definition resolveConversation ::
  "time \<Rightarrow> send_message_data \<Rightarrow> world \<Rightarrow> (error + conversation \<times> message list) \<times> world" where
  \<comment> \<open>the \<^verbatim>\<open>if (data.conversationId) ... else ...\<close> block of \<^verbatim>\<open>sendMessage\<close>: the
      conversation and the history the rest of the call works with\<close>
  "resolveConversation now d w =
     (case smd_conversationId d of
        Some cid \<Rightarrow>
          (case find (\<lambda>c. c_id c = cid) (conversations w) of
             None \<Rightarrow> (Inl (NotFoundError ''Conversation not found'' CONVERSATION_NOT_FOUND), w)
           | Some existingConversation \<Rightarrow>
               if c_userId existingConversation \<noteq> smd_userId d then
                 (Inl (ForbiddenError ''You do not have access to this conversation'' FORBIDDEN),
                  w)
               else (Inr (existingConversation, conversation_messages cid w), w))
      | None \<Rightarrow>
          (case create_conversation now (smd_userId d)
                  (generateConversationTitle (smd_message d)) w of
             (Inl e, w1) \<Rightarrow> (Inl e, w1)
           | (Inr row, w1) \<Rightarrow> (Inr (row, []), w1)))"

definition sendMessage ::
  "fetch_outcome \<Rightarrow> time \<Rightarrow> time \<Rightarrow> send_message_data \<Rightarrow> world
     \<Rightarrow> (error + message_response) \<times> world" where
  \<comment> \<open>\<open>now\<close>: the clock when the call starts; \<open>later\<close>: the clock when the agent has
      answered\<close>
  "sendMessage outcome now later d w =
     (case resolveConversation now d w of
        (Inl e, w1) \<Rightarrow> (Inl e, w1)
      | (Inr (conv, conversationHistory), w1) \<Rightarrow>
      case create_message now (c_id conv) ''user'' (JStr (smd_message d)) ''text'' None w1 of
        (Inl e, w2) \<Rightarrow> (Inl e, w2)
      | (Inr userMsg, w2) \<Rightarrow>
      let (agentResponse, w3) =
            agent_sendMessage outcome (smd_userId d) (smd_message d) conversationHistory w2
      in
      case create_message later (c_id conv) ''assistant'' (ag_content agentResponse)
             (ag_format agentResponse) (Some (ag_metadata agentResponse)) w3 of
        (Inl e, w4) \<Rightarrow> (Inl e, w4)
      | (Inr assistantMsg, w4) \<Rightarrow>
          (Inr \<lparr> mr_conversationId = c_id conv, userMessage = userMsg,
                 assistantMessage = assistantMsg \<rparr>,
           touch_conversation later (c_id conv) w4))"

definition getConversation :: "ident \<Rightarrow> ident \<Rightarrow> world \<Rightarrow> error + conversation \<times> message list" where
  "getConversation uid cid w =
     (case find (\<lambda>c. c_id c = cid) (conversations w) of
        None \<Rightarrow> Inl (NotFoundError ''Conversation not found'' CONVERSATION_NOT_FOUND)
      | Some conv \<Rightarrow>
          if c_userId conv \<noteq> uid then
            Inl (ForbiddenError ''You do not have access to this conversation'' FORBIDDEN)
          else Inr (conv, conversation_messages cid w))"


subsection \<open>Reference scenario\<close>

text \<open>
  Concrete collaborators and data for evaluating the services: a bcrypt stand-in whose
  hash of a password is the password behind a fixed prefix, a time-span parser reading
  \<^verbatim>\<open>15m\<close> and \<^verbatim>\<open>7d\<close> as jsonwebtoken does, and the account of the specification's
  scenario.
\<close>

definition reference_ext :: ext where
  "reference_ext =
     \<lparr> bcrypt_hash = (\<lambda>p r. ''$2b$'' @ p),
       bcrypt_compare = (\<lambda>p h. h = ''$2b$'' @ p),
       jwt_timespan = (\<lambda>s. case match_expiry s of
                               None \<Rightarrow> None
                             | Some (v, u) \<Rightarrow> Some (int v * (unit_millis u div 1000))) \<rparr>"

definition demo_user :: user where
  "demo_user =
     \<lparr> u_id = 0, u_email = ''demo@example.com'', u_password = ''$2b$Password123!'',
       u_name = ''Demo'', u_role = ''user'', u_emailVerified = False, u_loginAttempts = 0,
       u_lockedUntil = None, u_createdAt = 0, u_lastLoginAt = None, u_updatedAt = 0 \<rparr>"

definition demo_world :: "user \<Rightarrow> world" where
  "demo_world u = empty_world \<lparr> users := [u], nextId := 1 \<rparr>"

definition demo_payload :: token_payload where
  "demo_payload = \<lparr> userId = 0, email = ''demo@example.com'', role = ''user'' \<rparr>"

definition demo_access :: jwt where
  "demo_access = Jwt ''default-access-secret-change-me'' demo_payload 1000 1900"

definition demo_refresh :: jwt where
  "demo_refresh = Jwt ''default-refresh-secret-change-me'' demo_payload 1000 605800"

definition demo_refresh_row :: refresh_token where
  "demo_refresh_row =
     \<lparr> rt_id = 1, rt_token = demo_refresh, rt_userId = 0, rt_expiresAt = 605800000,
       rt_createdAt = 1000000, rt_revokedAt = None \<rparr>"

definition registered_world :: world where
  \<comment> \<open>the store after the scenario's registration at time 1000000\<close>
  "registered_world =
     \<lparr> users = [demo_user \<lparr> u_createdAt := 1000000, u_updatedAt := 1000000 \<rparr>],
       refreshTokens = [demo_refresh_row],
       conversations = [], messages = [], nextId = 2,
       trace = [PasswordHashed, UserCreated 0, RefreshTokenCreated 1] \<rparr>"

definition wrong_login :: login_data where
  "wrong_login = \<lparr> ld_email = ''demo@example.com'', ld_password = ''wrong'' \<rparr>"

definition right_login :: login_data where
  "right_login = \<lparr> ld_email = ''demo@example.com'', ld_password = ''Password123!'' \<rparr>"

definition five_failures :: world where
  \<comment> \<open>the store after wrong passwords at times 1000, 2000, 3000, 4000 and 5000\<close>
  "five_failures =
     snd (login reference_ext default_config 5000 5000 5000 5000 wrong_login
       (snd (login reference_ext default_config 4000 4000 4000 4000 wrong_login
         (snd (login reference_ext default_config 3000 3000 3000 3000 wrong_login
           (snd (login reference_ext default_config 2000 2000 2000 2000 wrong_login
             (snd (login reference_ext default_config 1000 1000 1000 1000 wrong_login
               (demo_world demo_user))))))))))"

definition remaining_seconds :: "time \<Rightarrow> time \<Rightarrow> int" where
  \<comment> \<open>the remaining lockout time in whole seconds, rounded up (the quantity of claim C5)\<close>
  "remaining_seconds lockedUntil now = - ((now - lockedUntil) div 1000)"

subsection \<open>Outcomes of the outbound call\<close>

definition outbound_call_failed :: "fetch_outcome \<Rightarrow> bool" where
  \<comment> \<open>failure as claim C1 lists it: network error or timeout, a status outside 2xx, or a
      malformed body: one that is not JSON or whose \<^verbatim>\<open>response\<close> is not a string\<close>
  "outbound_call_failed outcome =
     (case outcome of
        FetchRejected \<Rightarrow> True
      | FetchResponse ok body \<Rightarrow>
          (if ok then
             (case body of
                None \<Rightarrow> True
              | Some d \<Rightarrow>
                  (case js_get d ''response'' of
                     Inl e \<Rightarrow> True
                   | Inr (JStr s) \<Rightarrow> False
                   | Inr v \<Rightarrow> True))
           else True))"

definition generation_failed :: "fetch_outcome \<Rightarrow> bool" where
  \<comment> \<open>the failures the agent client turns into its fallback: network error or timeout, a
      status outside 2xx, a body that is not JSON, or a body with no \<^verbatim>\<open>response\<close> value\<close>
  "generation_failed outcome =
     (case outcome of
        FetchRejected \<Rightarrow> True
      | FetchResponse ok body \<Rightarrow>
          (if ok then
             (case body of
                None \<Rightarrow> True
              | Some d \<Rightarrow>
                  (case js_get d ''response'' of
                     Inl e \<Rightarrow> True
                   | Inr v \<Rightarrow> v = JUndefined \<or> v = JNull))
           else True))"

definition user_turn :: "time \<Rightarrow> ident \<Rightarrow> ident \<Rightarrow> string \<Rightarrow> message" where
  \<comment> \<open>the row \<open>sendMessage\<close> stores for the user's message\<close>
  "user_turn now mid cid text =
     \<lparr> m_id = mid, m_conversationId = cid, m_role = ''user'', m_content = text,
       m_format = ''text'', m_status = ''sent'', m_timestamp = now, m_metadata = None \<rparr>"

definition fallback_turn :: "time \<Rightarrow> ident \<Rightarrow> ident \<Rightarrow> message" where
  \<comment> \<open>the assistant row that carries the fallback reply\<close>
  "fallback_turn later mid cid =
     \<lparr> m_id = mid, m_conversationId = cid, m_role = ''assistant'',
       m_content = fallback_content, m_format = ''text'', m_status = ''sent'',
       m_timestamp = later, m_metadata = Some (ag_metadata fallback_response) \<rparr>"






subsection \<open>Features of a text, stated on the text itself\<close>

text \<open>
  What each pattern of \<^verbatim>\<open>detectMessageFormat\<close> looks for, as a decomposition of the text
  rather than a run of the matcher.
\<close>

definition prev_after :: "char option \<Rightarrow> string \<Rightarrow> char option" where
  \<comment> \<open>the character in front of the rest of the text once \<open>u\<close> has been read, \<open>p\<close> being
      the character in front of \<open>u\<close>\<close>
  "prev_after p u = (if u = [] then p else Some (last u))"

definition within :: "nat option \<Rightarrow> nat \<Rightarrow> bool" where
  \<comment> \<open>a repetition count within its upper bound\<close>
  "within hi n = (case hi of None \<Rightarrow> True | Some h \<Rightarrow> n \<le> h)"

definition line_start :: "string \<Rightarrow> bool" where
  \<comment> \<open>\<open>u\<close>, the text in front, ends a line\<close>
  "line_start u \<longleftrightarrow> u = [] \<or> is_line_terminator (last u)"

definition line_end :: "string \<Rightarrow> bool" where
  \<comment> \<open>\<open>w\<close>, the text behind, begins with the end of a line\<close>
  "line_end w \<longleftrightarrow> w = [] \<or> is_line_terminator (hd w)"

definition no_newline :: "string \<Rightarrow> bool" where
  "no_newline v \<longleftrightarrow> list_all (\<lambda>c. \<not> is_line_terminator c) v"

definition has_fenced_code :: "string \<Rightarrow> bool" where
  \<comment> \<open>two runs of three backticks\<close>
  "has_fenced_code s \<longleftrightarrow>
     (\<exists>u v w. s = u @ [CHR 0x60, CHR 0x60, CHR 0x60] @ v @ [CHR 0x60, CHR 0x60, CHR 0x60] @ w)"

definition has_inline_code :: "string \<Rightarrow> bool" where
  \<comment> \<open>two backticks around a non-empty text without backticks\<close>
  "has_inline_code s \<longleftrightarrow>
     (\<exists>u v w. s = u @ [CHR 0x60] @ v @ [CHR 0x60] @ w \<and> v \<noteq> [] \<and> CHR 0x60 \<notin> set v)"

definition has_header :: "string \<Rightarrow> bool" where
  \<comment> \<open>at the start of a line, one to six \<^verbatim>\<open>#\<close> and then white space\<close>
  "has_header s \<longleftrightarrow>
     (\<exists>u n c w. s = u @ replicate n CHR ''#'' @ c # w \<and> line_start u \<and> 1 \<le> n \<and> n \<le> 6
               \<and> is_space c)"

definition has_bold :: "string \<Rightarrow> bool" where
  \<comment> \<open>two pairs of asterisks\<close>
  "has_bold s \<longleftrightarrow> (\<exists>u v w. s = u @ ''**'' @ v @ ''**'' @ w)"

definition has_italic :: "string \<Rightarrow> bool" where
  \<comment> \<open>two asterisks\<close>
  "has_italic s \<longleftrightarrow> (\<exists>u v w. s = u @ ''*'' @ v @ ''*'' @ w)"

definition has_italic_alt :: "string \<Rightarrow> bool" where
  \<comment> \<open>two underscores\<close>
  "has_italic_alt s \<longleftrightarrow> (\<exists>u v w. s = u @ ''_'' @ v @ ''_'' @ w)"

definition has_unordered_item :: "string \<Rightarrow> bool" where
  \<comment> \<open>at the start of a line, after white space: a dash, asterisk or plus and then white space\<close>
  "has_unordered_item s \<longleftrightarrow>
     (\<exists>u v b c w. s = u @ v @ b # c # w \<and> line_start u \<and> list_all is_space v
                 \<and> b \<in> set ''-*+'' \<and> is_space c)"

definition has_ordered_item :: "string \<Rightarrow> bool" where
  \<comment> \<open>at the start of a line, after white space: digits, a full stop and then white space\<close>
  "has_ordered_item s \<longleftrightarrow>
     (\<exists>u v ds c w. s = u @ v @ ds @ CHR ''.'' # c # w \<and> line_start u \<and> list_all is_space v
                  \<and> ds \<noteq> [] \<and> list_all is_digit ds \<and> is_space c)"

definition has_link :: "string \<Rightarrow> bool" where
  \<comment> \<open>\<^verbatim>\<open>[...](...)\<close> within one line\<close>
  "has_link s \<longleftrightarrow>
     (\<exists>u v x w. s = u @ ''['' @ v @ '']('' @ x @ '')'' @ w \<and> no_newline v \<and> no_newline x)"

definition has_blockquote :: "string \<Rightarrow> bool" where
  \<comment> \<open>at the start of a line, after white space: \<^verbatim>\<open>>\<close> and then white space\<close>
  "has_blockquote s \<longleftrightarrow>
     (\<exists>u v c w. s = u @ v @ CHR ''>'' # c # w \<and> line_start u \<and> list_all is_space v
               \<and> is_space c)"

definition has_table_row :: "string \<Rightarrow> bool" where
  \<comment> \<open>three bars within one line\<close>
  "has_table_row s \<longleftrightarrow>
     (\<exists>u v x w. s = u @ ''|'' @ v @ ''|'' @ x @ ''|'' @ w \<and> no_newline v \<and> no_newline x)"

definition has_horizontal_rule :: "string \<Rightarrow> bool" where
  \<comment> \<open>a line of three or more dashes\<close>
  "has_horizontal_rule s \<longleftrightarrow>
     (\<exists>u n w. s = u @ replicate n CHR ''-'' @ w \<and> line_start u \<and> 3 \<le> n \<and> line_end w)"

definition has_strikethrough :: "string \<Rightarrow> bool" where
  \<comment> \<open>two pairs of tildes\<close>
  "has_strikethrough s \<longleftrightarrow> (\<exists>u v w. s = u @ ''~~'' @ v @ ''~~'' @ w)"

definition has_emphasis :: "string \<Rightarrow> bool" where
  "has_emphasis s \<longleftrightarrow> has_bold s \<or> has_italic s \<or> has_italic_alt s"

definition has_list_item :: "string \<Rightarrow> bool" where
  "has_list_item s \<longleftrightarrow> has_unordered_item s \<or> has_ordered_item s"

definition listed_feature :: "string \<Rightarrow> bool" where
  \<comment> \<open>the nine kinds claim C7 lists\<close>
  "listed_feature s \<longleftrightarrow>
     has_fenced_code s \<or> has_header s \<or> has_emphasis s \<or> has_list_item s \<or> has_link s
     \<or> has_blockquote s \<or> has_table_row s \<or> has_horizontal_rule s \<or> has_strikethrough s"

definition inline_code_sample :: string where
  \<comment> \<open>the letter a between two backticks\<close>
  "inline_code_sample = [CHR 0x60, CHR ''a'', CHR 0x60]"

section \<open>Properties\<close>

subsection \<open>Store lemmas\<close>

lemma users_emit [simp]: "users (emit ev w) = users w"
  by (simp add: emit_def)

lemma refreshTokens_emit [simp]: "refreshTokens (emit ev w) = refreshTokens w"
  by (simp add: emit_def)

lemma conversations_emit [simp]: "conversations (emit ev w) = conversations w"
  by (simp add: emit_def)

lemma messages_emit [simp]: "messages (emit ev w) = messages w"
  by (simp add: emit_def)

lemma nextId_emit [simp]: "nextId (emit ev w) = nextId w"
  by (simp add: emit_def)

lemma trace_emit [simp]: "trace (emit ev w) = trace w @ [ev]"
  by (simp add: emit_def)

lemma find_map_preserve:
  assumes "\<And>u. P (g u) = P u"
  shows "find P (map g xs) = map_option g (find P xs)"
  using assms by (induction xs) auto







subsection \<open>Conversation titles\<close>




subsection \<open>The credential sweep\<close>

text \<open>
  C6, as stated: the sweep leaves a revoked row that has not expired, and an expired row
  that was never revoked, in place. It deletes both.
\<close>

theorem sweep_counterexample:
  "cleanupExpiredTokens 10
     (empty_world \<lparr> refreshTokens :=
        [\<lparr> rt_id = 0, rt_token = Opaque ''a'', rt_userId = 0, rt_expiresAt = 100,
            rt_createdAt = 0, rt_revokedAt = Some 5 \<rparr>,
         \<lparr> rt_id = 1, rt_token = Opaque ''b'', rt_userId = 0, rt_expiresAt = 7,
            rt_createdAt = 0, rt_revokedAt = None \<rparr>] \<rparr>)
   = (2, empty_world \<lparr> trace := [RefreshTokensDeleted 2] \<rparr>)"
  by (simp add: cleanupExpiredTokens_def sweepable_def empty_world_def emit_def)

text \<open>
  C6, amended: the sweep deletes exactly the rows that are past their expiry or revoked
  (either condition suffices), keeps every other row in order, and returns the number
  of rows deleted.
\<close>

theorem sweep_deletes_expired_or_revoked:
  assumes "cleanupExpiredTokens now w = (n, w')"
  shows "refreshTokens w' =
           filter (\<lambda>r. \<not> (rt_expiresAt r < now \<or> rt_revokedAt r \<noteq> None)) (refreshTokens w)
       \<and> n = length (filter (\<lambda>r. rt_expiresAt r < now \<or> rt_revokedAt r \<noteq> None)
                       (refreshTokens w))
       \<and> n = length (refreshTokens w) - length (refreshTokens w')"
  using assms
    sum_length_filter_compl
      [of "\<lambda>r. rt_expiresAt r < now \<or> rt_revokedAt r \<noteq> None" "refreshTokens w"]
  unfolding cleanupExpiredTokens_def Let_def emit_def sweepable_def
  by auto

theorem sweep_deletes_expired_or_revoked_witness:
  "cleanupExpiredTokens 10
     (empty_world \<lparr> refreshTokens :=
        [\<lparr> rt_id = 0, rt_token = Opaque ''a'', rt_userId = 0, rt_expiresAt = 100,
            rt_createdAt = 0, rt_revokedAt = None \<rparr>,
         \<lparr> rt_id = 1, rt_token = Opaque ''b'', rt_userId = 0, rt_expiresAt = 7,
            rt_createdAt = 0, rt_revokedAt = Some 8 \<rparr>] \<rparr>)
   = (1, empty_world \<lparr> refreshTokens :=
        [\<lparr> rt_id = 0, rt_token = Opaque ''a'', rt_userId = 0, rt_expiresAt = 100,
            rt_createdAt = 0, rt_revokedAt = None \<rparr>],
        trace := [RefreshTokensDeleted 1] \<rparr>)
   \<and> refreshTokens (empty_world \<lparr> refreshTokens :=
        [\<lparr> rt_id = 0, rt_token = Opaque ''a'', rt_userId = 0, rt_expiresAt = 100,
            rt_createdAt = 0, rt_revokedAt = None \<rparr>],
        trace := [RefreshTokensDeleted 1] \<rparr>)
     = filter (\<lambda>r. \<not> (rt_expiresAt r < 10 \<or> rt_revokedAt r \<noteq> None))
        [\<lparr> rt_id = 0, rt_token = Opaque ''a'', rt_userId = 0, rt_expiresAt = 100,
            rt_createdAt = 0, rt_revokedAt = None \<rparr>,
         \<lparr> rt_id = 1, rt_token = Opaque ''b'', rt_userId = 0, rt_expiresAt = 7,
            rt_createdAt = 0, rt_revokedAt = Some 8 \<rparr>]"
proof -
  have run: "cleanupExpiredTokens 10
     (empty_world \<lparr> refreshTokens :=
        [\<lparr> rt_id = 0, rt_token = Opaque ''a'', rt_userId = 0, rt_expiresAt = 100,
            rt_createdAt = 0, rt_revokedAt = None \<rparr>,
         \<lparr> rt_id = 1, rt_token = Opaque ''b'', rt_userId = 0, rt_expiresAt = 7,
            rt_createdAt = 0, rt_revokedAt = Some 8 \<rparr>] \<rparr>)
   = (1, empty_world \<lparr> refreshTokens :=
        [\<lparr> rt_id = 0, rt_token = Opaque ''a'', rt_userId = 0, rt_expiresAt = 100,
            rt_createdAt = 0, rt_revokedAt = None \<rparr>],
        trace := [RefreshTokensDeleted 1] \<rparr>)"
    by (simp add: cleanupExpiredTokens_def sweepable_def empty_world_def emit_def)
  show ?thesis
    using run sweep_deletes_expired_or_revoked [OF run]
    by (simp add: empty_world_def)
qed

subsection \<open>The LLM lookup endpoint\<close>

text \<open>
  C10: \<open>getUserById\<close> answers with the fields id, name, email, role, emailVerified,
  createdAt and updatedAt of the row and nothing else (the type \<open>user_info\<close> has no other
  field). Two stores whose rows for the id agree on these seven fields give the same
  answer, whatever their password hashes, login attempts, lock times and last-login
  times are.
\<close>

theorem getUserById_noninterference:
  assumes "find (\<lambda>u. u_id u = uid) (users w1) = Some a"
      and "find (\<lambda>u. u_id u = uid) (users w2) = Some b"
      and "u_id a = u_id b" and "u_name a = u_name b" and "u_email a = u_email b"
      and "u_role a = u_role b" and "u_emailVerified a = u_emailVerified b"
      and "u_createdAt a = u_createdAt b" and "u_updatedAt a = u_updatedAt b"
  shows "getUserById uid w1 = getUserById uid w2
       \<and> getUserById uid w1 =
           Inr \<lparr> success = True,
                  data = \<lparr> ui_id = u_id a, ui_name = u_name a, ui_email = u_email a,
                           ui_role = u_role a, ui_emailVerified = u_emailVerified a,
                           ui_createdAt = u_createdAt a, ui_updatedAt = u_updatedAt a \<rparr> \<rparr>"
  using assms by (simp add: getUserById_def select_user_info_def)

theorem getUserById_noninterference_witness:
  "getUserById 3
     (empty_world \<lparr> users :=
        [\<lparr> u_id = 3, u_email = ''a@b.c'', u_password = ''hash-one'', u_name = ''A'',
            u_role = ''user'', u_emailVerified = False, u_loginAttempts = 0,
            u_lockedUntil = None, u_createdAt = 1, u_lastLoginAt = None,
            u_updatedAt = 2 \<rparr>] \<rparr>)
   = getUserById 3
     (empty_world \<lparr> users :=
        [\<lparr> u_id = 3, u_email = ''a@b.c'', u_password = ''hash-two'', u_name = ''A'',
            u_role = ''user'', u_emailVerified = False, u_loginAttempts = 5,
            u_lockedUntil = Some 900, u_createdAt = 1, u_lastLoginAt = Some 4,
            u_updatedAt = 2 \<rparr>] \<rparr>)"
  using getUserById_noninterference
    [of 3 "empty_world \<lparr> users :=
        [\<lparr> u_id = 3, u_email = ''a@b.c'', u_password = ''hash-one'', u_name = ''A'',
            u_role = ''user'', u_emailVerified = False, u_loginAttempts = 0,
            u_lockedUntil = None, u_createdAt = 1, u_lastLoginAt = None,
            u_updatedAt = 2 \<rparr>] \<rparr>"
        "\<lparr> u_id = 3, u_email = ''a@b.c'', u_password = ''hash-one'', u_name = ''A'',
            u_role = ''user'', u_emailVerified = False, u_loginAttempts = 0,
            u_lockedUntil = None, u_createdAt = 1, u_lastLoginAt = None,
            u_updatedAt = 2 \<rparr>"
        "empty_world \<lparr> users :=
        [\<lparr> u_id = 3, u_email = ''a@b.c'', u_password = ''hash-two'', u_name = ''A'',
            u_role = ''user'', u_emailVerified = False, u_loginAttempts = 5,
            u_lockedUntil = Some 900, u_createdAt = 1, u_lastLoginAt = Some 4,
            u_updatedAt = 2 \<rparr>] \<rparr>"
        "\<lparr> u_id = 3, u_email = ''a@b.c'', u_password = ''hash-two'', u_name = ''A'',
            u_role = ''user'', u_emailVerified = False, u_loginAttempts = 5,
            u_lockedUntil = Some 900, u_createdAt = 1, u_lastLoginAt = Some 4,
            u_updatedAt = 2 \<rparr>"]
  by (simp add: empty_world_def)

subsection \<open>Login and lockout\<close>

lemma find_email_update_user:
  assumes "\<And>u. u_email (f u) = u_email u"
  shows "find (\<lambda>u. u_email u = e) (users (update_user t uid f w)) =
         map_option (\<lambda>u. if u_id u = uid then (f u)\<lparr> u_updatedAt := t \<rparr> else u)
           (find (\<lambda>u. u_email u = e) (users w))"
  unfolding update_user_def
  by (simp add: find_map_preserve assms)

lemma login_wrong_password:
  assumes "find (\<lambda>u. u_email u = toLowerCase (ld_email d)) (users w) = Some u"
      and "u_lockedUntil u = None"
      and "\<not> bcrypt_compare x (ld_password d) (u_password u)"
  shows "login x cfg t1 t2 t3 now d w =
           (if u_loginAttempts u + 1 \<ge> maxLoginAttempts cfg
            then (Inl (UnauthorizedError
                         ''Too many failed login attempts. Account locked for 15 minutes''
                         ACCOUNT_LOCKED),
                  update_user now (u_id u)
                    (\<lambda>v. v\<lparr> u_loginAttempts := u_loginAttempts u + 1,
                             u_lockedUntil := Some (now + accountLockoutDuration cfg) \<rparr>)
                    (emit PasswordCompared w))
            else (Inl (UnauthorizedError ''Invalid email or password'' INVALID_CREDENTIALS),
                  update_user now (u_id u)
                    (\<lambda>v. v\<lparr> u_loginAttempts := u_loginAttempts u + 1 \<rparr>)
                    (emit PasswordCompared w)))"
  using assms
  by (simp add: login_def checkAccountLock_def handleFailedLogin_def Let_def)

lemma login_wrong_step:
  assumes f: "find (\<lambda>u. u_email u = toLowerCase e) (users w) = Some v"
      and l: "u_lockedUntil v = None"
      and c: "\<not> bcrypt_compare x pw (u_password v)"
  shows "\<exists>v'. find (\<lambda>u. u_email u = toLowerCase e)
                 (users (snd (login x cfg a b c t \<lparr> ld_email = e, ld_password = pw \<rparr> w))) = Some v'
             \<and> u_password v' = u_password v
             \<and> u_loginAttempts v' = u_loginAttempts v + 1
             \<and> u_lockedUntil v' =
                 (if u_loginAttempts v + 1 \<ge> maxLoginAttempts cfg
                  then Some (t + accountLockoutDuration cfg) else None)"
  using login_wrong_password [of "\<lparr> ld_email = e, ld_password = pw \<rparr>" w v x cfg a b c t] f l c
  by (simp add: find_email_update_user)

lemma login_locked:
  assumes "find (\<lambda>u. u_email u = toLowerCase (ld_email d)) (users w) = Some u"
      and "u_lockedUntil u = Some l"
      and "t1 < l"
  shows "login x cfg t1 t2 t3 now d w =
           (Inl (UnauthorizedError
                   (''Account is locked. Please try again in ''
                      @ dec (remainingTime l t2) @ '' minutes'')
                   ACCOUNT_LOCKED), w)"
  using assms
  by (simp add: login_def checkAccountLock_def)

lemma remainingTime_bounds:
  "60000 * (remainingTime l now - 1) < l - now \<and> l - now \<le> 60000 * remainingTime l now"
proof -
  define q where "q = (now - l) div 60000"
  define m where "m = (now - l) mod 60000"
  have eq: "now - l = 60000 * q + m" unfolding q_def m_def by simp
  have m0: "0 \<le> m" and m1: "m < 60000" unfolding m_def by simp_all
  have "- (60000 * q) - 60000 < l - now" using eq m1 by linarith
  then have "60000 * (- q - 1) < l - now" by (simp add: algebra_simps)
  moreover have "l - now \<le> 60000 * - q" using eq m0 by linarith
  ultimately show ?thesis unfolding remainingTime_def q_def by simp
qed

lemma remainingTime_pos_iff: "1 \<le> remainingTime l t \<longleftrightarrow> t < l"
proof
  assume "1 \<le> remainingTime l t"
  then have "0 \<le> 60000 * (remainingTime l t - 1)" by simp
  then show "t < l" using remainingTime_bounds [of l t, THEN conjunct1] by linarith
next
  assume "t < l"
  then show "1 \<le> remainingTime l t"
    using remainingTime_bounds [of l t, THEN conjunct2] by linarith
qed

lemma lower_demo: "toLowerCase ''demo@example.com'' = ''demo@example.com''"
  by (simp add: toLowerCase_def lower_char_def)

lemma dec_15: "dec 15 = ''15''"
  by code_simp

lemma match_expiry_7d: "match_expiry ''7d'' = Some (7, CHR ''d'')"
  by code_simp

lemma match_expiry_15m: "match_expiry ''15m'' = Some (15, CHR ''m'')"
  by code_simp

lemmas login_eval =
  login_def wrong_login_def right_login_def lower_demo demo_world_def demo_user_def
  empty_world_def checkAccountLock_def handleFailedLogin_def update_user_def emit_def
  reference_ext_def default_config_def Let_def

lemma five_failures_eval:
  "five_failures =
     empty_world
       \<lparr> users := [demo_user \<lparr> u_loginAttempts := 5, u_lockedUntil := Some 905000,
                               u_updatedAt := 5000 \<rparr>],
         nextId := 1,
         trace := [PasswordCompared, UserUpdated 0, PasswordCompared, UserUpdated 0,
                   PasswordCompared, UserUpdated 0, PasswordCompared, UserUpdated 0,
                   PasswordCompared, UserUpdated 0] \<rparr>"
  unfolding five_failures_def by (simp add: login_eval)

text \<open>
  C3: with at most five attempts allowed and a positive lockout duration (the defaults are
  5 and 15 minutes), five logins with a wrong password on an account that starts at zero
  failed attempts and no lock leave the account with \<open>lockedUntil\<close> set to the time of the
  fifth attempt plus the lockout duration, which is later than that attempt. A sixth login
  with the correct password whose lock check reads the clock before that time is rejected
  with \<open>ACCOUNT_LOCKED\<close>; it leaves the store and the effect log as they were, so no
  password comparison is performed. Every attempt has its own clock readings.
\<close>

theorem lockout_after_five_failures:
  assumes cfg: "maxLoginAttempts cfg = 5" "0 < accountLockoutDuration cfg"
      and acct: "find (\<lambda>u. u_email u = toLowerCase e) (users w0) = Some u"
                "u_loginAttempts u = 0" "u_lockedUntil u = None"
      and wrong: "\<not> bcrypt_compare x p1 (u_password u)" "\<not> bcrypt_compare x p2 (u_password u)"
                 "\<not> bcrypt_compare x p3 (u_password u)" "\<not> bcrypt_compare x p4 (u_password u)"
                 "\<not> bcrypt_compare x p5 (u_password u)"
      and right: "bcrypt_compare x p (u_password u)"
      and steps: "w1 = snd (login x cfg a1 b1 c1 t1 \<lparr> ld_email = e, ld_password = p1 \<rparr> w0)"
                 "w2 = snd (login x cfg a2 b2 c2 t2 \<lparr> ld_email = e, ld_password = p2 \<rparr> w1)"
                 "w3 = snd (login x cfg a3 b3 c3 t3 \<lparr> ld_email = e, ld_password = p3 \<rparr> w2)"
                 "w4 = snd (login x cfg a4 b4 c4 t4 \<lparr> ld_email = e, ld_password = p4 \<rparr> w3)"
                 "w5 = snd (login x cfg a5 b5 c5 t5 \<lparr> ld_email = e, ld_password = p5 \<rparr> w4)"
      and still: "a6 < t5 + accountLockoutDuration cfg"
  shows "(\<exists>u5. find (\<lambda>u. u_email u = toLowerCase e) (users w5) = Some u5
              \<and> u_password u5 = u_password u
              \<and> u_loginAttempts u5 = 5
              \<and> u_lockedUntil u5 = Some (t5 + accountLockoutDuration cfg)
              \<and> t5 < t5 + accountLockoutDuration cfg)
       \<and> login x cfg a6 b6 c6 t6 \<lparr> ld_email = e, ld_password = p \<rparr> w5 =
           (Inl (UnauthorizedError
                   (''Account is locked. Please try again in ''
                      @ dec (remainingTime (t5 + accountLockoutDuration cfg) b6) @ '' minutes'')
                   ACCOUNT_LOCKED), w5)
       \<and> trace (snd (login x cfg a6 b6 c6 t6 \<lparr> ld_email = e, ld_password = p \<rparr> w5)) = trace w5"
proof -
  let ?P = "\<lambda>u. u_email u = toLowerCase e"
  obtain v1 where v1: "find ?P (users w1) = Some v1" "u_password v1 = u_password u"
      "u_loginAttempts v1 = 1" "u_lockedUntil v1 = None"
    using login_wrong_step [OF acct(1) acct(3) wrong(1), of cfg a1 b1 c1 t1] cfg acct(2) steps(1)
    by auto
  obtain v2 where v2: "find ?P (users w2) = Some v2" "u_password v2 = u_password u"
      "u_loginAttempts v2 = 2" "u_lockedUntil v2 = None"
    using login_wrong_step [OF v1(1) v1(4), of x p2 cfg a2 b2 c2 t2] wrong(2) cfg v1(2,3) steps(2)
    by auto
  obtain v3 where v3: "find ?P (users w3) = Some v3" "u_password v3 = u_password u"
      "u_loginAttempts v3 = 3" "u_lockedUntil v3 = None"
    using login_wrong_step [OF v2(1) v2(4), of x p3 cfg a3 b3 c3 t3] wrong(3) cfg v2(2,3) steps(3)
    by auto
  obtain v4 where v4: "find ?P (users w4) = Some v4" "u_password v4 = u_password u"
      "u_loginAttempts v4 = 4" "u_lockedUntil v4 = None"
    using login_wrong_step [OF v3(1) v3(4), of x p4 cfg a4 b4 c4 t4] wrong(4) cfg v3(2,3) steps(4)
    by auto
  obtain v5 where v5: "find ?P (users w5) = Some v5" "u_password v5 = u_password u"
      "u_loginAttempts v5 = 5" "u_lockedUntil v5 = Some (t5 + accountLockoutDuration cfg)"
    using login_wrong_step [OF v4(1) v4(4), of x p5 cfg a5 b5 c5 t5] wrong(5) cfg v4(2,3) steps(5)
    by auto
  have locked: "login x cfg a6 b6 c6 t6 \<lparr> ld_email = e, ld_password = p \<rparr> w5 =
           (Inl (UnauthorizedError
                   (''Account is locked. Please try again in ''
                      @ dec (remainingTime (t5 + accountLockoutDuration cfg) b6) @ '' minutes'')
                   ACCOUNT_LOCKED), w5)"
    using login_locked [of "\<lparr> ld_email = e, ld_password = p \<rparr>" w5 v5
                           "t5 + accountLockoutDuration cfg" a6 x cfg b6 c6 t6] v5 still
    by simp
  show ?thesis
    using v5 locked cfg by auto
qed

theorem lockout_after_five_failures_witness:
  "maxLoginAttempts default_config = 5 \<and> 0 < accountLockoutDuration default_config
   \<and> find (\<lambda>u. u_email u = toLowerCase ''demo@example.com'') (users (demo_world demo_user))
       = Some demo_user
   \<and> \<not> bcrypt_compare reference_ext ''wrong'' (u_password demo_user)
   \<and> bcrypt_compare reference_ext ''Password123!'' (u_password demo_user)
   \<and> (6000::int) < 5000 + accountLockoutDuration default_config
   \<and> login reference_ext default_config 6000 6001 6002 6003 right_login five_failures =
       (Inl (UnauthorizedError ''Account is locked. Please try again in 15 minutes''
               ACCOUNT_LOCKED), five_failures)"
  using lockout_after_five_failures
    [of default_config "''demo@example.com''" "demo_world demo_user" demo_user reference_ext
        "''wrong''" "''wrong''" "''wrong''" "''wrong''" "''wrong''" "''Password123!''"
        "snd (login reference_ext default_config 1000 1000 1000 1000 wrong_login
           (demo_world demo_user))"
        1000 1000 1000 1000
        "snd (login reference_ext default_config 2000 2000 2000 2000 wrong_login
           (snd (login reference_ext default_config 1000 1000 1000 1000 wrong_login
             (demo_world demo_user))))"
        2000 2000 2000 2000
        "snd (login reference_ext default_config 3000 3000 3000 3000 wrong_login
           (snd (login reference_ext default_config 2000 2000 2000 2000 wrong_login
             (snd (login reference_ext default_config 1000 1000 1000 1000 wrong_login
               (demo_world demo_user))))))"
        3000 3000 3000 3000
        "snd (login reference_ext default_config 4000 4000 4000 4000 wrong_login
           (snd (login reference_ext default_config 3000 3000 3000 3000 wrong_login
             (snd (login reference_ext default_config 2000 2000 2000 2000 wrong_login
               (snd (login reference_ext default_config 1000 1000 1000 1000 wrong_login
                 (demo_world demo_user))))))))"
        4000 4000 4000 4000 five_failures 5000 5000 5000 5000 6000 6001 6002 6003]
  by (simp add: five_failures_def [symmetric] wrong_login_def [symmetric]
        right_login_def [symmetric])
     (simp add: default_config_def lower_demo demo_world_def demo_user_def empty_world_def
        reference_ext_def remainingTime_def dec_15)

text \<open>
  C4 says a wrong password on the first attempt after the lock has elapsed counts as the
  first failed attempt and does not lock the account again. The code resets the row in
  \<open>checkAccountLock\<close>, but \<open>login\<close> then hands the attempt count it read before the reset
  to \<open>handleFailedLogin\<close>: with five recorded attempts and a lock that ended at time 1000,
  a wrong password at time 2000 stores six attempts and locks the account until 902000.
\<close>

theorem relock_after_elapsed_lock:
  "login reference_ext default_config 2000 2000 2000 2000 wrong_login
     (demo_world (demo_user \<lparr> u_loginAttempts := 5, u_lockedUntil := Some 1000 \<rparr>))
   = (Inl (UnauthorizedError
             ''Too many failed login attempts. Account locked for 15 minutes'' ACCOUNT_LOCKED),
      empty_world \<lparr> users := [demo_user \<lparr> u_loginAttempts := 6, u_lockedUntil := Some 902000,
                                         u_updatedAt := 2000 \<rparr>],
                    nextId := 1,
                    trace := [UserUpdated 0, PasswordCompared, UserUpdated 0] \<rparr>)"
  by (simp add: login_eval)

text \<open>The same wrong password on an account that was never locked is a first failure.\<close>

lemma never_locked_first_failure:
  "login reference_ext default_config 2000 2000 2000 2000 wrong_login (demo_world demo_user)
   = (Inl (UnauthorizedError ''Invalid email or password'' INVALID_CREDENTIALS),
      empty_world \<lparr> users := [demo_user \<lparr> u_loginAttempts := 1, u_updatedAt := 2000 \<rparr>],
                    nextId := 1,
                    trace := [PasswordCompared, UserUpdated 0] \<rparr>)"
  by (simp add: login_eval)

text \<open>
  The stale count does not depend on the clock: whatever the readings, once the lock has
  elapsed at the third reading of \<open>checkAccountLock\<close> (and so at the first), a wrong
  password on an account with five recorded attempts locks it again.
\<close>

lemma relock_any_clock:
  assumes "l \<le> t1" and "l \<le> t3"
  shows "fst (login reference_ext default_config t1 t2 t3 now wrong_login
           (demo_world (demo_user \<lparr> u_loginAttempts := 5, u_lockedUntil := Some l \<rparr>)))
         = Inl (UnauthorizedError
                  ''Too many failed login attempts. Account locked for 15 minutes''
                  ACCOUNT_LOCKED)"
  using assms by (simp add: login_eval)

text \<open>
  \<open>checkAccountLock\<close> reads the clock once to decide (\<open>t1\<close>) and once more to compute the
  remaining time (\<open>t2\<close>). The number of minutes is positive exactly when the second
  reading is still before \<open>lockedUntil\<close>.
\<close>

lemma dec_0: "dec 0 = ''0''"
  by code_simp

text \<open>
  C5, as stated: the \<open>ACCOUNT_LOCKED\<close> error carries the remaining lockout time in seconds,
  and that value is positive. With 900 seconds of lockout left, the only number the error
  carries is 15: the remaining time in minutes, inside the message text. And when the lock
  ends between the reading of the clock that decides the rejection (999, before
  \<open>lockedUntil\<close> = 1000) and the reading that computes the number (1000), the login is
  rejected with the number 0.
\<close>

theorem locked_error_counterexample:
  "login reference_ext default_config 0 0 0 0 right_login
     (demo_world (demo_user \<lparr> u_loginAttempts := 5, u_lockedUntil := Some 900000 \<rparr>))
   = (Inl (UnauthorizedError ''Account is locked. Please try again in 15 minutes''
             ACCOUNT_LOCKED),
      demo_world (demo_user \<lparr> u_loginAttempts := 5, u_lockedUntil := Some 900000 \<rparr>))
   \<and> remaining_seconds 900000 0 = 900
   \<and> login reference_ext default_config 999 1000 1000 1000 right_login
        (demo_world (demo_user \<lparr> u_loginAttempts := 5, u_lockedUntil := Some 1000 \<rparr>))
      = (Inl (UnauthorizedError ''Account is locked. Please try again in 0 minutes''
                ACCOUNT_LOCKED),
         demo_world (demo_user \<lparr> u_loginAttempts := 5, u_lockedUntil := Some 1000 \<rparr>))"
  by (simp add: login_eval remainingTime_def dec_15 dec_0 remaining_seconds_def)

text \<open>
  C5, amended: whenever a login finds the account's \<open>lockedUntil\<close> in the future at the
  first reading of the clock in \<open>checkAccountLock\<close>, it is rejected with the
  \<open>ACCOUNT_LOCKED\<close> error, whose message carries the lockout time that remains at the
  second reading of the clock, expressed in whole minutes, rounded up; the store is left
  unchanged. That number is at least 1 if and only if the second reading is still before
  \<open>lockedUntil\<close>; otherwise it is 0 or negative.
\<close>

theorem locked_error_carries_minutes:
  assumes "find (\<lambda>u. u_email u = toLowerCase (ld_email d)) (users w) = Some u"
      and "u_lockedUntil u = Some l"
      and "t1 < l"
  shows "login x cfg t1 t2 t3 now d w =
           (Inl (UnauthorizedError
                   (''Account is locked. Please try again in ''
                      @ dec (remainingTime l t2) @ '' minutes'')
                   ACCOUNT_LOCKED), w)
       \<and> 60000 * (remainingTime l t2 - 1) < l - t2
       \<and> l - t2 \<le> 60000 * remainingTime l t2
       \<and> (1 \<le> remainingTime l t2 \<longleftrightarrow> t2 < l)"
  using login_locked [OF assms] remainingTime_bounds [of l t2] remainingTime_pos_iff [of l t2]
  by simp

theorem locked_error_carries_minutes_witness:
  "find (\<lambda>u. u_email u = toLowerCase (ld_email right_login))
     (users (demo_world (demo_user \<lparr> u_lockedUntil := Some 61000 \<rparr>)))
     = Some (demo_user \<lparr> u_lockedUntil := Some 61000 \<rparr>)
   \<and> u_lockedUntil (demo_user \<lparr> u_lockedUntil := Some 61000 \<rparr>) = Some 61000
   \<and> (1000::int) < 61000
   \<and> login reference_ext default_config 1000 1001 1002 1003 right_login
        (demo_world (demo_user \<lparr> u_lockedUntil := Some 61000 \<rparr>))
      = (Inl (UnauthorizedError
                (''Account is locked. Please try again in ''
                   @ dec (remainingTime 61000 1001) @ '' minutes'')
                ACCOUNT_LOCKED),
         demo_world (demo_user \<lparr> u_lockedUntil := Some 61000 \<rparr>))
   \<and> remainingTime 61000 1001 = 1"
  using locked_error_carries_minutes
    [of right_login "demo_world (demo_user \<lparr> u_lockedUntil := Some 61000 \<rparr>)"
        "demo_user \<lparr> u_lockedUntil := Some 61000 \<rparr>" 61000 1000 reference_ext default_config
        1001 1002 1003]
  by (simp add: right_login_def lower_demo demo_world_def demo_user_def empty_world_def
        remainingTime_def)
subsection \<open>Registration and the token round trip\<close>

lemma generateAccessToken_verifies:
  assumes "generateAccessToken x cfg now p = Inr tok"
      and "jwt_timespan x (accessExpiry cfg) = Some sa"
      and "t div 1000 < now div 1000 + sa"
  shows "verifyAccessToken cfg t tok =
           Inr \<lparr> userId = userId p, email = email p, role = role p,
                  iat = now div 1000, exp = now div 1000 + sa \<rparr>"
  using assms by (auto simp: generateAccessToken_def verifyAccessToken_def jwt_sign_def)

lemma generateRefreshToken_verifies:
  assumes "generateRefreshToken x cfg now p = Inr tok"
      and "jwt_timespan x (refreshExpiry cfg) = Some sr"
      and "t div 1000 < now div 1000 + sr"
  shows "verifyRefreshToken cfg t tok =
           Inr \<lparr> userId = userId p, email = email p, role = role p,
                  iat = now div 1000, exp = now div 1000 + sr \<rparr>"
  using assms by (auto simp: generateRefreshToken_def verifyRefreshToken_def jwt_sign_def)

lemma register_success:
  assumes "register x cfg now d w = (Inr r, w')"
  shows "\<exists>u. u_id u = nextId w \<and> u_email u = toLowerCase (rd_email d)
           \<and> users w' = users w @ [u] \<and> ar_id r = u_id u
           \<and> generateAccessToken x cfg now
                \<lparr> userId = u_id u, email = u_email u, role = u_role u \<rparr> = Inr (accessToken r)
           \<and> generateRefreshToken x cfg now
                \<lparr> userId = u_id u, email = u_email u, role = u_role u \<rparr> = Inr (refreshToken r)"
proof (cases "find (\<lambda>u. u_email u = toLowerCase (rd_email d)) (users w)")
  case (Some a)
  then show ?thesis using assms by (simp add: register_def)
next
  case None
  let ?c = "create_user now (toLowerCase (rd_email d))
              (bcrypt_hash x (rd_password d) (bcryptRounds cfg)) (rd_name d)
              (emit PasswordHashed w)"
  let ?u = "fst ?c"
  let ?w1 = "snd ?c"
  let ?p = "\<lparr> userId = u_id ?u, email = u_email ?u, role = u_role ?u \<rparr>"
  have u: "u_id ?u = nextId w" "u_email ?u = toLowerCase (rd_email d)"
          "users ?w1 = users w @ [?u]"
    by (simp_all add: create_user_def Let_def)
  from assms None obtain a where a: "generateAccessToken x cfg now ?p = Inr a"
    by (cases "generateAccessToken x cfg now ?p")
       (simp_all add: register_def Let_def split_beta)
  from assms None a obtain b where b: "generateRefreshToken x cfg now ?p = Inr b"
    by (cases "generateRefreshToken x cfg now ?p")
       (simp_all add: register_def Let_def split_beta)
  from assms None a b obtain ex where ex: "getTokenExpiry now (refreshExpiry cfg) = Inr ex"
    by (cases "getTokenExpiry now (refreshExpiry cfg)")
       (simp_all add: register_def Let_def split_beta)
  obtain res w2 where cr: "create_refresh_token now b (u_id ?u) ex ?w1 = (res, w2)"
    by (cases "create_refresh_token now b (u_id ?u) ex ?w1")
  have w2: "users w2 = users ?w1"
    using cr by (auto simp: create_refresh_token_def Let_def split: if_splits)
  from assms None a b ex cr
  have "r = \<lparr> ar_id = u_id ?u, ar_email = u_email ?u, ar_name = u_name ?u,
              ar_role = u_role ?u, ar_emailVerified = u_emailVerified ?u,
              accessToken = a, refreshToken = b \<rparr> \<and> w' = w2"
    by (cases res) (simp_all add: register_def Let_def split_beta)
  then show ?thesis using u a b w2 by (intro exI [of _ ?u]) simp
qed

text \<open>
  C9: after a successful registration, and as long as neither token has reached its expiry
  (\<open>t\<close> is the time of verification, \<open>sa\<close> and \<open>sr\<close> the configured life times in
  seconds), the access token verifies under \<open>verifyAccessToken\<close>, the refresh token
  verifies under \<open>verifyRefreshToken\<close>, and both decode to the same \<open>userId\<close>: the id of
  the user row the registration appended, which is also the id in the response.
\<close>

theorem register_tokens_verify:
  assumes reg: "register x cfg now d w = (Inr r, w')"
      and sa: "jwt_timespan x (accessExpiry cfg) = Some sa"
      and sr: "jwt_timespan x (refreshExpiry cfg) = Some sr"
      and ta: "t div 1000 < now div 1000 + sa"
      and tr: "t div 1000 < now div 1000 + sr"
  shows "\<exists>da dr u. verifyAccessToken cfg t (accessToken r) = Inr da
               \<and> verifyRefreshToken cfg t (refreshToken r) = Inr dr
               \<and> userId da = u_id u \<and> userId dr = u_id u \<and> ar_id r = u_id u
               \<and> u_id u = nextId w \<and> u_email u = toLowerCase (rd_email d)
               \<and> users w' = users w @ [u]"
proof -
  from register_success [OF reg] obtain u where u:
    "u_id u = nextId w" "u_email u = toLowerCase (rd_email d)" "users w' = users w @ [u]"
    "ar_id r = u_id u"
    "generateAccessToken x cfg now \<lparr> userId = u_id u, email = u_email u, role = u_role u \<rparr>
       = Inr (accessToken r)"
    "generateRefreshToken x cfg now \<lparr> userId = u_id u, email = u_email u, role = u_role u \<rparr>
       = Inr (refreshToken r)"
    by blast
  show ?thesis
    using generateAccessToken_verifies [OF u(5) sa ta]
          generateRefreshToken_verifies [OF u(6) sr tr] u(1-4)
    by auto
qed

lemma demo_register:
  "register reference_ext default_config 1000000
     \<lparr> rd_email = ''demo@example.com'', rd_password = ''Password123!'', rd_name = ''Demo'' \<rparr>
     empty_world
   = (Inr \<lparr> ar_id = 0, ar_email = ''demo@example.com'', ar_name = ''Demo'', ar_role = ''user'',
            ar_emailVerified = False, accessToken = demo_access, refreshToken = demo_refresh \<rparr>,
      registered_world)"
  by (simp add: register_def lower_demo empty_world_def create_user_def emit_def
        reference_ext_def default_config_def Let_def generateAccessToken_def
        generateRefreshToken_def match_expiry_7d match_expiry_15m unit_millis_def jwt_sign_def
        getTokenExpiry_def create_refresh_token_def demo_user_def demo_access_def
        demo_refresh_def demo_payload_def registered_world_def demo_refresh_row_def)

theorem register_tokens_verify_witness:
  "jwt_timespan reference_ext (accessExpiry default_config) = Some 900
   \<and> jwt_timespan reference_ext (refreshExpiry default_config) = Some 604800
   \<and> verifyAccessToken default_config 1000000 demo_access =
       Inr \<lparr> userId = 0, email = ''demo@example.com'', role = ''user'',
              iat = 1000, exp = 1900 \<rparr>
   \<and> verifyRefreshToken default_config 1000000 demo_refresh =
       Inr \<lparr> userId = 0, email = ''demo@example.com'', role = ''user'',
              iat = 1000, exp = 605800 \<rparr>"
  using register_tokens_verify [OF demo_register, of 900 604800 1000000]
  by (simp add: reference_ext_def default_config_def match_expiry_7d match_expiry_15m
        unit_millis_def verifyAccessToken_def verifyRefreshToken_def demo_access_def
        demo_refresh_def demo_payload_def)

subsection \<open>Refresh token rotation\<close>

lemma find_token_revoke:
  "find (\<lambda>r. rt_token r = tok) (refreshTokens (revoke_refresh_token t rid w)) =
     map_option (\<lambda>r. if rt_id r = rid then r\<lparr> rt_revokedAt := Some t \<rparr> else r)
       (find (\<lambda>r. rt_token r = tok) (refreshTokens w))"
  unfolding revoke_refresh_token_def
  by (simp add: find_map_preserve)

lemma find_append_Some: "find P xs = Some x \<Longrightarrow> find P (xs @ ys) = Some x"
  by (induction xs) (auto split: if_splits)

lemma find_Some_list_ex: "find P xs = Some x \<Longrightarrow> list_ex P xs"
  by (induction xs) (auto split: if_splits)

lemma create_refresh_token_Inr:
  assumes "create_refresh_token t tok uid ex w = (Inr row, w')"
  shows "\<not> list_ex (\<lambda>r. rt_token r = tok) (refreshTokens w)"
    and "refreshTokens w' = refreshTokens w @ [row]" and "users w' = users w"
    and "rt_token row = tok"
  using assms by (auto simp: create_refresh_token_def Let_def split: if_splits)

text \<open>
  Rotation when it goes through: if \<open>refreshAccessToken\<close> returns a pair for the token
  \<open>T\<close>, the new refresh token differs from \<open>T\<close>, the row of \<open>T\<close> is revoked, and
  presenting \<open>T\<close> again, at any time at which its signature still verifies, fails with
  \<open>TOKEN_INVALID\<close>.
\<close>

lemma refresh_rotation:
  assumes ok: "refreshAccessToken x cfg now T w = (Inr (A', T'), w')"
  shows "T' \<noteq> T"
    and "\<exists>st. find (\<lambda>r. rt_token r = T) (refreshTokens w') = Some st
              \<and> rt_revokedAt st = Some now"
    and "verifyRefreshToken cfg t2 T = Inr d2 \<Longrightarrow>
         refreshAccessToken x cfg t2 T w' =
           (Inl (UnauthorizedError ''Refresh token has been revoked'' TOKEN_INVALID), w')"
proof -
  from ok obtain dcd where v: "verifyRefreshToken cfg now T = Inr dcd"
    by (cases "verifyRefreshToken cfg now T") (simp_all add: refreshAccessToken_def)
  from ok v obtain st where st: "find (\<lambda>r. rt_token r = T) (refreshTokens w) = Some st"
    by (cases "find (\<lambda>r. rt_token r = T) (refreshTokens w)")
       (simp_all add: refreshAccessToken_def)
  from ok v st obtain su where su: "find (\<lambda>u. u_id u = rt_userId st) (users w) = Some su"
    by (cases "find (\<lambda>u. u_id u = rt_userId st) (users w)")
       (simp_all add: refreshAccessToken_def)
  from ok v st su have nr: "rt_revokedAt st = None" and ne: "\<not> rt_expiresAt st < now"
    by (auto simp: refreshAccessToken_def split: if_splits)
  let ?w1 = "revoke_refresh_token now (rt_id st) w"
  let ?p = "\<lparr> userId = u_id su, email = u_email su, role = u_role su \<rparr>"
  from ok v st su nr ne obtain a where a: "generateAccessToken x cfg now ?p = Inr a"
    by (cases "generateAccessToken x cfg now ?p")
       (simp_all add: refreshAccessToken_def Let_def)
  from ok v st su nr ne a obtain b where b: "generateRefreshToken x cfg now ?p = Inr b"
    by (cases "generateRefreshToken x cfg now ?p")
       (simp_all add: refreshAccessToken_def Let_def)
  from ok v st su nr ne a b obtain ex where ex: "getTokenExpiry now (refreshExpiry cfg) = Inr ex"
    by (cases "getTokenExpiry now (refreshExpiry cfg)")
       (simp_all add: refreshAccessToken_def Let_def)
  obtain res w2 where cr: "create_refresh_token now b (u_id su) ex ?w1 = (res, w2)"
    by (cases "create_refresh_token now b (u_id su) ex ?w1")
  from ok v st su nr ne a b ex cr obtain row where
    row: "res = Inr row" and eqs: "T' = b" "w' = w2"
    by (cases res) (simp_all add: refreshAccessToken_def Let_def)
  have f1: "find (\<lambda>r. rt_token r = T) (refreshTokens ?w1) =
              Some (st\<lparr> rt_revokedAt := Some now \<rparr>)"
    using st by (simp add: find_token_revoke)
  from cr row have fresh: "\<not> list_ex (\<lambda>r. rt_token r = b) (refreshTokens ?w1)"
    and toks: "refreshTokens w2 = refreshTokens ?w1 @ [row]"
    and usrs: "users w2 = users ?w1"
    using create_refresh_token_Inr [of now b "u_id su" ex ?w1 row w2] by simp_all
  show "T' \<noteq> T"
    using fresh find_Some_list_ex [OF f1] eqs by auto
  have f2: "find (\<lambda>r. rt_token r = T) (refreshTokens w') =
              Some (st\<lparr> rt_revokedAt := Some now \<rparr>)"
    using f1 toks eqs by (simp add: find_append_Some)
  then show "\<exists>st. find (\<lambda>r. rt_token r = T) (refreshTokens w') = Some st
              \<and> rt_revokedAt st = Some now"
    by simp
  have u2: "users w' = users w"
    using usrs eqs by (simp add: revoke_refresh_token_def)
  show "refreshAccessToken x cfg t2 T w' =
           (Inl (UnauthorizedError ''Refresh token has been revoked'' TOKEN_INVALID), w')"
    if "verifyRefreshToken cfg t2 T = Inr d2"
    using that f2 u2 su by (simp add: refreshAccessToken_def)
qed

text \<open>
  C2 says every accepted refresh token is exchanged for a new pair with a different
  refresh token. A token is determined by its claims and its issue and expiry seconds, so
  a refresh within the clock second in which the token was issued signs the very same
  token again. The code has revoked the presented token by then, and the insert of the
  replacement fails on the unique index of the token column: the call throws, and the
  session is lost. Here the token issued by the registration at time 1000000 is presented
  at time 1000500.
\<close>

theorem refresh_within_issue_second:
  "register reference_ext default_config 1000000
     \<lparr> rd_email = ''demo@example.com'', rd_password = ''Password123!'', rd_name = ''Demo'' \<rparr>
     empty_world
   = (Inr \<lparr> ar_id = 0, ar_email = ''demo@example.com'', ar_name = ''Demo'', ar_role = ''user'',
            ar_emailVerified = False, accessToken = demo_access, refreshToken = demo_refresh \<rparr>,
      registered_world)
   \<and> refreshAccessToken reference_ext default_config 1000500 demo_refresh registered_world
   = (Inl (LibraryError ''P2002 unique constraint failed on refresh_tokens.token''),
      registered_world
        \<lparr> refreshTokens := [demo_refresh_row \<lparr> rt_revokedAt := Some 1000500 \<rparr>],
          trace := [PasswordHashed, UserCreated 0, RefreshTokenCreated 1,
                    RefreshTokenRevoked 1] \<rparr>)"
  by (simp add: demo_register)
     (simp add: refreshAccessToken_def verifyRefreshToken_def registered_world_def
        demo_refresh_row_def demo_refresh_def demo_payload_def demo_user_def
        default_config_def reference_ext_def revoke_refresh_token_def emit_def Let_def
        generateAccessToken_def generateRefreshToken_def match_expiry_7d match_expiry_15m
        unit_millis_def jwt_sign_def getTokenExpiry_def create_refresh_token_def)

text \<open>One second later the same exchange goes through.\<close>

lemma refresh_after_issue_second:
  "fst (refreshAccessToken reference_ext default_config 1001000 demo_refresh registered_world)
   = Inr (Jwt ''default-access-secret-change-me'' demo_payload 1001 1901,
          Jwt ''default-refresh-secret-change-me'' demo_payload 1001 605801)"
  by (simp add: refreshAccessToken_def verifyRefreshToken_def registered_world_def
        demo_refresh_row_def demo_refresh_def demo_payload_def demo_user_def
        default_config_def reference_ext_def revoke_refresh_token_def emit_def Let_def
        generateAccessToken_def generateRefreshToken_def match_expiry_7d match_expiry_15m
        unit_millis_def jwt_sign_def getTokenExpiry_def create_refresh_token_def)

subsection \<open>The message pipeline\<close>

lemma agent_fallback:
  assumes "generation_failed outcome"
  shows "agent_sendMessage outcome uid msg hist w =
           (fallback_response,
            emit (AgentCalled (transformMessagesToLLMFormat hist msg)) w)"
proof (cases outcome)
  case FetchRejected
  then show ?thesis by (simp add: agent_sendMessage_def)
next
  case (FetchResponse ok body)
  show ?thesis
  proof (cases "ok \<and> body \<noteq> None")
    case False
    then show ?thesis using FetchResponse
      by (auto simp: agent_sendMessage_def Let_def)
  next
    case True
    then obtain d where d: "body = Some d" and ok: ok by auto
    show ?thesis
    proof (cases "js_get d ''response''")
      case (Inl e)
      then show ?thesis using FetchResponse d ok
        by (simp add: agent_sendMessage_def Let_def)
    next
      case (Inr v)
      then have "v = JUndefined \<or> v = JNull"
        using assms FetchResponse d ok by (simp add: generation_failed_def)
      then have len: "\<exists>e. js_get v ''length'' = Inl e" by auto
      have "\<exists>a. js_get d ''tool_calls_made'' = Inr a" "\<exists>b. js_get d ''iterations'' = Inr b"
        using Inr by (cases d; simp)+
      then show ?thesis using FetchResponse d ok Inr len
        by (auto simp: agent_sendMessage_def Let_def)
    qed
  qed
qed


lemma fallback_content_no_nul: "\<not> has_nul fallback_content"
  by (simp add: has_nul_def fallback_content_def)

lemma resolved_conversation_exists:
  assumes "resolveConversation now d w = (Inr (conv, hist), w1)"
  shows "list_ex (\<lambda>c. c_id c = c_id conv) (conversations w1)"
proof (cases "smd_conversationId d")
  case None
  then show ?thesis
    using assms
    by (auto simp: resolveConversation_def create_conversation_def Let_def
          split: if_splits)
next
  case (Some cid)
  then have f: "find (\<lambda>c. c_id c = cid) (conversations w) = Some conv" and w: "w1 = w"
    using assms by (auto simp: resolveConversation_def split: option.splits if_splits)
  have "conv \<in> set (conversations w)"
    using f by (auto simp: find_Some_iff)
  then show ?thesis using w by (auto simp: list_ex_iff)
qed

lemma create_message_text:
  assumes "\<not> has_nul text" and "list_ex (\<lambda>c. c_id c = cid) (conversations w)"
  shows "create_message t cid r (JStr text) fmt md w =
     (Inr \<lparr> m_id = nextId w, m_conversationId = cid, m_role = r, m_content = text,
            m_format = fmt, m_status = ''sent'', m_timestamp = t, m_metadata = md \<rparr>,
      emit (MessageCreated (nextId w))
        (w\<lparr> messages := messages w @
               [\<lparr> m_id = nextId w, m_conversationId = cid, m_role = r, m_content = text,
                   m_format = fmt, m_status = ''sent'', m_timestamp = t, m_metadata = md \<rparr>],
            nextId := Suc (nextId w) \<rparr>))"
  using assms by (simp add: create_message_def Let_def)

lemma create_message_nul:
  "has_nul text \<Longrightarrow>
   create_message t cid r (JStr text) fmt md w =
     (Inl (LibraryError ''invalid byte sequence for encoding UTF8: 0x00''), w)"
  by (simp add: create_message_def)


lemma touch_conversation_keeps:
  "messages (touch_conversation t cid w) = messages w"
  "trace (touch_conversation t cid w) = trace w @ [ConversationUpdated cid]"
  by (simp_all add: touch_conversation_def)


text \<open>
  A message with U+0000 passes resolution like any other when it goes to a conversation
  of the caller; the insert of the user's turn is then rejected, before the agent client
  is called, and nothing is stored.
\<close>

lemma nul_message_rejected:
  assumes res: "resolveConversation now d w = (Inr (conv, hist), w1)"
      and nul: "has_nul (smd_message d)"
  shows "sendMessage outcome now later d w =
           (Inl (LibraryError ''invalid byte sequence for encoding UTF8: 0x00''), w1)"
  using res by (simp add: sendMessage_def create_message_nul [OF nul])

lemma resolution_passes_iff:
  "(\<exists>conv hist w1. resolveConversation now d w = (Inr (conv, hist), w1)) \<longleftrightarrow>
     (smd_conversationId d = None
      \<and> \<not> has_nul (generateConversationTitle (smd_message d))
      \<and> list_ex (\<lambda>u. u_id u = smd_userId d) (users w))
     \<or> (\<exists>cid conv. smd_conversationId d = Some cid
            \<and> find (\<lambda>c. c_id c = cid) (conversations w) = Some conv
            \<and> c_userId conv = smd_userId d)"
  by (auto simp: resolveConversation_def create_conversation_def Let_def
        split: option.splits if_splits)

text \<open>
  Between the failures the agent client absorbs and a reply with a string as \<^verbatim>\<open>response\<close>
  lie the bodies whose \<^verbatim>\<open>response\<close> is some other value: the client hands that value on
  as content.
\<close>

lemma agent_passes_non_string:
  assumes "js_get d ''response'' = Inr v" and "v \<noteq> JUndefined" and "v \<noteq> JNull"
  shows "ag_content (fst (agent_sendMessage (FetchResponse True (Some d)) uid msg hist w)) = v"
proof -
  have "\<exists>a. js_get d ''tool_calls_made'' = Inr a" "\<exists>b. js_get d ''iterations'' = Inr b"
    using assms(1) by (cases d; simp)+
  moreover have "\<exists>len. js_get v ''length'' = Inr len"
    using assms(2,3) by (cases v) simp_all
  ultimately show ?thesis
    using assms(1) by (auto simp: agent_sendMessage_def Let_def)
qed

lemma generation_failed_is_claimed_failure:
  "generation_failed outcome \<Longrightarrow> outbound_call_failed outcome"
  by (auto simp: generation_failed_def outbound_call_failed_def
        split: fetch_outcome.splits option.splits sum.splits jsval.splits)


lemma generation_failure_absorbed_aux:
  assumes res: "resolveConversation now d w = (Inr (conv, hist), w1)"
      and nonul: "\<not> has_nul (smd_message d)"
      and fail: "generation_failed outcome"
  shows "sendMessage outcome now later d w =
           (Inr \<lparr> mr_conversationId = c_id conv,
                  userMessage = user_turn now (nextId w1) (c_id conv) (smd_message d),
                  assistantMessage = fallback_turn later (Suc (nextId w1)) (c_id conv) \<rparr>,
            touch_conversation later (c_id conv)
              (w1\<lparr> messages := messages w1 @
                       [user_turn now (nextId w1) (c_id conv) (smd_message d),
                        fallback_turn later (Suc (nextId w1)) (c_id conv)],
                    nextId := Suc (Suc (nextId w1)),
                    trace := trace w1 @
                       [MessageCreated (nextId w1),
                        AgentCalled (transformMessagesToLLMFormat hist (smd_message d)),
                        MessageCreated (Suc (nextId w1))] \<rparr>))"
proof -
  let ?um = "user_turn now (nextId w1) (c_id conv) (smd_message d)"
  let ?w2 = "emit (MessageCreated (nextId w1))
               (w1\<lparr> messages := messages w1 @ [?um], nextId := Suc (nextId w1) \<rparr>)"
  let ?w3 = "emit (AgentCalled (transformMessagesToLLMFormat hist (smd_message d))) ?w2"
  have ex: "list_ex (\<lambda>c. c_id c = c_id conv) (conversations w1)"
    by (rule resolved_conversation_exists [OF res])
  have um: "create_message now (c_id conv) ''user'' (JStr (smd_message d)) ''text'' None w1
              = (Inr ?um, ?w2)"
    using create_message_text [OF nonul ex] by (simp add: user_turn_def)
  have ex3: "list_ex (\<lambda>c. c_id c = c_id conv) (conversations ?w3)"
    using ex by simp
  have am: "create_message later (c_id conv) ''assistant'' (JStr fallback_content) ''text''
              (Some (ag_metadata fallback_response)) ?w3
            = (Inr (fallback_turn later (Suc (nextId w1)) (c_id conv)),
               emit (MessageCreated (Suc (nextId w1)))
                 (?w3\<lparr> messages := messages ?w3 @
                           [fallback_turn later (Suc (nextId w1)) (c_id conv)],
                        nextId := Suc (Suc (nextId w1)) \<rparr>))"
    using create_message_text [OF fallback_content_no_nul ex3]
    by (simp add: fallback_turn_def)
  show ?thesis
    using res um am
    by (simp add: sendMessage_def agent_fallback [OF fail] fallback_response_def emit_def)
qed

text \<open>The two turns of an absorbed failure are among the messages \<open>getConversation\<close> returns.\<close>

lemma turns_retrievable:
  assumes res: "resolveConversation now d w = (Inr (conv, hist), w1)"
      and nonul: "\<not> has_nul (smd_message d)"
      and fail: "generation_failed outcome"
      and get: "getConversation uid (c_id conv) (snd (sendMessage outcome now later d w))
                  = Inr (c, ms)"
  shows "user_turn now (nextId w1) (c_id conv) (smd_message d) \<in> set ms"
    and "fallback_turn later (Suc (nextId w1)) (c_id conv) \<in> set ms"
proof -
  have "messages (snd (sendMessage outcome now later d w)) =
          messages w1 @ [user_turn now (nextId w1) (c_id conv) (smd_message d),
                         fallback_turn later (Suc (nextId w1)) (c_id conv)]"
    using generation_failure_absorbed_aux [OF res nonul fail, of later]
    by (simp add: touch_conversation_keeps)
  moreover have "ms = conversation_messages (c_id conv) (snd (sendMessage outcome now later d w))"
    using get by (auto simp: getConversation_def split: option.splits if_splits)
  ultimately show "user_turn now (nextId w1) (c_id conv) (smd_message d) \<in> set ms"
    and "fallback_turn later (Suc (nextId w1)) (c_id conv) \<in> set ms"
    by (simp_all add: conversation_messages_def user_turn_def fallback_turn_def)
qed



subsection \<open>The matcher against the features of the text\<close>

lemma prev_after_simps [simp]:
  "prev_after p [] = p"
  "prev_after p (c # u) = prev_after (Some c) u"
  by (simp_all add: prev_after_def)

lemma prev_after_append [simp]: "prev_after p (u @ v) = prev_after (prev_after p u) v"
  by (induction u arbitrary: p) simp_all

lemma within_pred: "within (map_option (\<lambda>h. h - 1) hi) n \<and> hi \<noteq> Some 0 \<longleftrightarrow> within hi (Suc n)"
  by (cases hi) (auto simp: within_def)

lemma search_iff:
  "search pat p s \<longleftrightarrow> (\<exists>u v. s = u @ v \<and> match_here pat (prev_after p u) v)"
proof (induction s arbitrary: p)
  case Nil
  then show ?case by simp
next
  case (Cons c cs)
  show ?case
  proof
    assume "search pat p (c # cs)"
    then consider "match_here pat p (c # cs)" | "search pat (Some c) cs" by auto
    then show "\<exists>u v. c # cs = u @ v \<and> match_here pat (prev_after p u) v"
    proof cases
      case 1
      then have "c # cs = [] @ (c # cs) \<and> match_here pat (prev_after p []) (c # cs)" by simp
      then show ?thesis by blast
    next
      case 2
      then obtain u v where "cs = u @ v" "match_here pat (prev_after (Some c) u) v"
        using Cons.IH by blast
      then have "c # cs = (c # u) @ v \<and> match_here pat (prev_after p (c # u)) v" by simp
      then show ?thesis by blast
    qed
  next
    assume "\<exists>u v. c # cs = u @ v \<and> match_here pat (prev_after p u) v"
    then obtain u v where uv: "c # cs = u @ v" "match_here pat (prev_after p u) v" by blast
    show "search pat p (c # cs)"
    proof (cases u)
      case Nil
      then have "v = c # cs" "match_here pat p v" using uv by simp_all
      then show ?thesis by simp
    next
      case (Cons a u')
      then have "cs = u' @ v" "match_here pat (prev_after (Some c) u') v" using uv by auto
      then have "search pat (Some c) cs" using Cons.IH by blast
      then show ?thesis by simp
    qed
  qed
qed

lemma match_here_Char:
  "match_here (Char k # r) p s \<longleftrightarrow> (\<exists>c cs. s = c # cs \<and> cmatch k c \<and> match_here r (Some c) cs)"
  by (cases s) simp_all

lemma match_here_Repeat:
  "match_here (Repeat lo hi k # r) p s \<longleftrightarrow>
     (\<exists>v w. s = v @ w \<and> list_all (cmatch k) v \<and> lo \<le> length v \<and> within hi (length v)
            \<and> match_here r (prev_after p v) w)"
proof (induction s arbitrary: lo hi p)
  case Nil
  then show ?case by (auto simp: within_def split: option.splits)
next
  case (Cons c cs)
  let ?hi' = "map_option (\<lambda>h. h - 1) hi"
  show ?case
  proof
    assume "match_here (Repeat lo hi k # r) p (c # cs)"
    then consider "lo = 0" "match_here r p (c # cs)"
      | "cmatch k c" "hi \<noteq> Some 0" "match_here (Repeat (lo - 1) ?hi' k # r) (Some c) cs"
      by auto
    then show "\<exists>v w. c # cs = v @ w \<and> list_all (cmatch k) v \<and> lo \<le> length v
                 \<and> within hi (length v) \<and> match_here r (prev_after p v) w"
    proof cases
      case 1
      then have "c # cs = [] @ (c # cs) \<and> list_all (cmatch k) [] \<and> lo \<le> length ([]::string)
                 \<and> within hi (length ([]::string)) \<and> match_here r (prev_after p []) (c # cs)"
        by (simp add: within_def split: option.splits)
      then show ?thesis by blast
    next
      case 2
      then obtain v w where vw: "cs = v @ w" "list_all (cmatch k) v" "lo - 1 \<le> length v"
          "within ?hi' (length v)" "match_here r (prev_after (Some c) v) w"
        using Cons.IH by blast
      have "within hi (Suc (length v))" using within_pred vw(4) 2(2) by blast
      then have "c # cs = (c # v) @ w \<and> list_all (cmatch k) (c # v) \<and> lo \<le> length (c # v)
                 \<and> within hi (length (c # v)) \<and> match_here r (prev_after p (c # v)) w"
        using vw 2(1) by simp
      then show ?thesis by blast
    qed
  next
    assume "\<exists>v w. c # cs = v @ w \<and> list_all (cmatch k) v \<and> lo \<le> length v
                 \<and> within hi (length v) \<and> match_here r (prev_after p v) w"
    then obtain v w where vw: "c # cs = v @ w" "list_all (cmatch k) v" "lo \<le> length v"
        "within hi (length v)" "match_here r (prev_after p v) w"
      by blast
    show "match_here (Repeat lo hi k # r) p (c # cs)"
    proof (cases v)
      case Nil
      then show ?thesis using vw by simp
    next
      case (Cons a v')
      then have a: "a = c" "cs = v' @ w" using vw(1) by auto
      have "within ?hi' (length v')" "hi \<noteq> Some 0"
        using within_pred [of hi "length v'"] vw(4) Cons by auto
      moreover have "list_all (cmatch k) v'" "cmatch k c" "lo - 1 \<le> length v'"
        "match_here r (prev_after (Some c) v') w"
        using vw Cons a by auto
      ultimately have "match_here (Repeat (lo - 1) ?hi' k # r) (Some c) cs"
        using Cons.IH a(2) by blast
      then show ?thesis using \<open>cmatch k c\<close> \<open>hi \<noteq> Some 0\<close> by simp
    qed
  qed
qed

lemma match_here_lits:
  "match_here (lits cs @ r) p s \<longleftrightarrow> (\<exists>w. s = cs @ w \<and> match_here r (prev_after p cs) w)"
proof (induction cs arbitrary: p s)
  case Nil
  then show ?case by (simp add: lits_def)
next
  case (Cons a cs)
  have "match_here (lits (a # cs) @ r) p s \<longleftrightarrow>
        (\<exists>c t. s = c # t \<and> c = a \<and> match_here (lits cs @ r) (Some c) t)"
    by (cases s) (auto simp: lits_def)
  also have "\<dots> \<longleftrightarrow> (\<exists>w. s = (a # cs) @ w \<and> match_here r (prev_after p (a # cs)) w)"
    using Cons.IH by auto
  finally show ?case .
qed

lemma match_here_lits_end:
  "match_here (lits cs) p s \<longleftrightarrow> (\<exists>w. s = cs @ w)"
  using match_here_lits [of cs "[]" p s] by simp

lemma at_line_start_iff:
  "(case prev_after None u of None \<Rightarrow> True | Some c \<Rightarrow> is_line_terminator c) \<longleftrightarrow> line_start u"
  by (simp add: prev_after_def line_start_def)

lemma at_line_end_iff:
  "(case w of [] \<Rightarrow> True | c # cs \<Rightarrow> is_line_terminator c) \<longleftrightarrow> line_end w"
  by (cases w) (simp_all add: line_end_def)

lemma all_AnyChar [simp]: "list_all (cmatch AnyChar) v"
  by (simp add: list_all_iff)

lemma all_NonNewline [simp]: "list_all (cmatch NonNewline) v \<longleftrightarrow> no_newline v"
  by (simp add: list_all_iff no_newline_def)

lemma all_Whitespace [simp]: "list_all (cmatch Whitespace) v \<longleftrightarrow> list_all is_space v"
  by (simp add: list_all_iff)

lemma all_Digit [simp]: "list_all (cmatch Digit) v \<longleftrightarrow> list_all is_digit v"
  by (simp add: list_all_iff)

lemma all_NoneOf [simp]: "list_all (cmatch (NoneOf cs)) v \<longleftrightarrow> set v \<inter> set cs = {}"
  by (auto simp: list_all_iff)

lemma all_Lit: "list_all (cmatch (Lit a)) v \<longleftrightarrow> v = replicate (length v) a"
  by (induction v) auto

lemma within_None [simp]: "within None n"
  by (simp add: within_def)

lemma within_Some [simp]: "within (Some h) n \<longleftrightarrow> n \<le> h"
  by (simp add: within_def)

lemma match_here_Nil: "match_here [] p s"
  by simp

lemma match_here_LineStart:
  "match_here (LineStart # r) (prev_after None u) s \<longleftrightarrow> line_start u \<and> match_here r (prev_after None u) s"
  by (simp add: at_line_start_iff)

lemma match_here_LineEnd:
  "match_here (LineEnd # r) p s \<longleftrightarrow> line_end s \<and> match_here r p s"
  by (simp add: at_line_end_iff)

lemmas match_simps =
  regex_test_def search_iff match_here_lits match_here_lits_end match_here_Repeat
  match_here_Char match_here_Nil match_here_LineStart match_here_LineEnd

lemma fenced_iff: "regex_test codeBlockPattern s \<longleftrightarrow> has_fenced_code s"
  unfolding codeBlockPattern_def has_fenced_code_def
  apply (simp add: match_simps del: match_here.simps)
  by (rule iffI; elim exE conjE; hypsubst; intro exI conjI; (rule refl | assumption)?)

lemma bold_iff: "regex_test boldPattern s \<longleftrightarrow> has_bold s"
  unfolding boldPattern_def has_bold_def
  apply (simp add: match_simps del: match_here.simps)
  by (rule iffI; elim exE conjE; hypsubst; intro exI conjI; (rule refl | assumption)?)

lemma italic_iff: "regex_test italicPattern s \<longleftrightarrow> has_italic s"
  unfolding italicPattern_def has_italic_def
  apply (simp add: match_simps del: match_here.simps)
  by (rule iffI; elim exE conjE; hypsubst; intro exI conjI; (rule refl | assumption)?)

lemma italic_alt_iff: "regex_test italicAltPattern s \<longleftrightarrow> has_italic_alt s"
  unfolding italicAltPattern_def has_italic_alt_def
  apply (simp add: match_simps del: match_here.simps)
  by (rule iffI; elim exE conjE; hypsubst; intro exI conjI; (rule refl | assumption)?)

lemma strikethrough_iff: "regex_test strikethroughPattern s \<longleftrightarrow> has_strikethrough s"
  unfolding strikethroughPattern_def has_strikethrough_def
  apply (simp add: match_simps del: match_here.simps)
  by (rule iffI; elim exE conjE; hypsubst; intro exI conjI; (rule refl | assumption)?)

lemma link_iff: "regex_test linkPattern s \<longleftrightarrow> has_link s"
  unfolding linkPattern_def has_link_def
  apply (simp add: match_simps del: match_here.simps)
  by (rule iffI; elim exE conjE; hypsubst; intro exI conjI; (rule refl | assumption)?)

lemma table_iff: "regex_test tablePattern s \<longleftrightarrow> has_table_row s"
  unfolding tablePattern_def has_table_row_def
  apply (simp add: match_simps del: match_here.simps)
  by (rule iffI; elim exE conjE; hypsubst; intro exI conjI; (rule refl | assumption)?)

lemma unordered_iff: "regex_test unorderedListPattern s \<longleftrightarrow> has_unordered_item s"
  unfolding unorderedListPattern_def has_unordered_item_def
  apply (simp add: match_simps del: match_here.simps)
  by (rule iffI; elim exE conjE; hypsubst; intro exI conjI; (rule refl | assumption)?)

lemma blockquote_iff: "regex_test blockquotePattern s \<longleftrightarrow> has_blockquote s"
  unfolding blockquotePattern_def has_blockquote_def
  apply (simp add: match_simps del: match_here.simps)
  by (rule iffI; elim exE conjE; hypsubst; intro exI conjI; (rule refl | assumption)?)

lemma all_Lit_replicate [simp]: "list_all (cmatch (Lit a)) (replicate n a)"
  by (simp add: list_all_iff)

lemma inline_iff: "regex_test inlineCodePattern s \<longleftrightarrow> has_inline_code s"
  unfolding inlineCodePattern_def has_inline_code_def
  apply (simp add: match_simps Suc_le_eq del: match_here.simps)
  by (rule iffI; elim exE conjE; hypsubst; intro exI conjI; (rule refl | assumption)?)

lemma ordered_iff: "regex_test orderedListPattern s \<longleftrightarrow> has_ordered_item s"
  unfolding orderedListPattern_def has_ordered_item_def
  apply (simp add: match_simps Suc_le_eq del: match_here.simps)
  by (rule iffI; elim exE conjE; hypsubst; intro exI conjI; (rule refl | assumption)?)

lemma header_iff: "regex_test headerPattern s \<longleftrightarrow> has_header s"
proof -
  have "regex_test headerPattern s \<longleftrightarrow>
        (\<exists>u v c w. s = u @ v @ c # w \<and> line_start u \<and> list_all (cmatch (Lit CHR ''#'')) v
                  \<and> Suc 0 \<le> length v \<and> length v \<le> 6 \<and> is_space c)"
    unfolding headerPattern_def
    apply (simp add: match_simps del: match_here.simps)
    by (rule iffI; elim exE conjE; hypsubst; intro exI conjI; (rule refl | assumption)?)
  also have "\<dots> \<longleftrightarrow> has_header s"
  proof
    assume "\<exists>u v c w. s = u @ v @ c # w \<and> line_start u \<and> list_all (cmatch (Lit CHR ''#'')) v
                  \<and> Suc 0 \<le> length v \<and> length v \<le> 6 \<and> is_space c"
    then obtain u v c w where h: "s = u @ v @ c # w" "line_start u"
        "list_all (cmatch (Lit CHR ''#'')) v" "Suc 0 \<le> length v" "length v \<le> 6" "is_space c"
      by blast
    have "v = replicate (length v) CHR ''#''" using h(3) by (simp add: all_Lit)
    then have "s = u @ replicate (length v) CHR ''#'' @ c # w" using h(1) by simp
    then show "has_header s" unfolding has_header_def using h(2,4,5,6) by auto
  next
    assume "has_header s"
    then obtain u n c w where h: "s = u @ replicate n CHR ''#'' @ c # w" "line_start u"
        "1 \<le> n" "n \<le> 6" "is_space c"
      unfolding has_header_def by blast
    have "s = u @ replicate n CHR ''#'' @ c # w \<and> line_start u
          \<and> list_all (cmatch (Lit CHR ''#'')) (replicate n CHR ''#'')
          \<and> Suc 0 \<le> length (replicate n CHR ''#'') \<and> length (replicate n CHR ''#'') \<le> 6
          \<and> is_space c"
      using h by simp
    then show "\<exists>u v c w. s = u @ v @ c # w \<and> line_start u \<and> list_all (cmatch (Lit CHR ''#'')) v
                  \<and> Suc 0 \<le> length v \<and> length v \<le> 6 \<and> is_space c"
      by blast
  qed
  finally show ?thesis .
qed

lemma rule_iff: "regex_test horizontalRulePattern s \<longleftrightarrow> has_horizontal_rule s"
proof -
  have "regex_test horizontalRulePattern s \<longleftrightarrow>
        (\<exists>u v w. s = u @ CHR ''-'' # CHR ''-'' # v @ w \<and> line_start u
                \<and> list_all (cmatch (Lit CHR ''-'')) v \<and> Suc 0 \<le> length v \<and> line_end w)"
    unfolding horizontalRulePattern_def
    apply (simp add: match_simps del: match_here.simps)
    by (rule iffI; elim exE conjE; hypsubst; intro exI conjI; (rule refl | assumption)?)
  also have "\<dots> \<longleftrightarrow> has_horizontal_rule s"
  proof
    assume "\<exists>u v w. s = u @ CHR ''-'' # CHR ''-'' # v @ w \<and> line_start u
                \<and> list_all (cmatch (Lit CHR ''-'')) v \<and> Suc 0 \<le> length v \<and> line_end w"
    then obtain u v w where h: "s = u @ CHR ''-'' # CHR ''-'' # v @ w" "line_start u"
        "list_all (cmatch (Lit CHR ''-'')) v" "Suc 0 \<le> length v" "line_end w"
      by blast
    have "v = replicate (length v) CHR ''-''" using h(3) by (simp add: all_Lit)
    then have "CHR ''-'' # CHR ''-'' # v = replicate (Suc (Suc (length v))) CHR ''-''" by simp
    then have "s = u @ replicate (Suc (Suc (length v))) CHR ''-'' @ w" using h(1) by simp
    moreover have "3 \<le> Suc (Suc (length v))" using h(4) by simp
    ultimately show "has_horizontal_rule s" unfolding has_horizontal_rule_def using h(2,5) by blast
  next
    assume "has_horizontal_rule s"
    then obtain u n w where h: "s = u @ replicate n CHR ''-'' @ w" "line_start u" "3 \<le> n"
        "line_end w"
      unfolding has_horizontal_rule_def by blast
    then obtain m where m: "n = Suc (Suc (Suc m))"
      by (metis One_nat_def Suc_le_D numeral_3_eq_3 Suc_le_mono)
    have "s = u @ CHR ''-'' # CHR ''-'' # replicate (Suc m) CHR ''-'' @ w \<and> line_start u
          \<and> list_all (cmatch (Lit CHR ''-'')) (replicate (Suc m) CHR ''-'')
          \<and> Suc 0 \<le> length (replicate (Suc m) CHR ''-'') \<and> line_end w"
      using h m by (simp del: replicate_Suc add: replicate_Suc [symmetric])
    then show "\<exists>u v w. s = u @ CHR ''-'' # CHR ''-'' # v @ w \<and> line_start u
                \<and> list_all (cmatch (Lit CHR ''-'')) v \<and> Suc 0 \<le> length v \<and> line_end w"
      by blast
  qed
  finally show ?thesis .
qed

lemmas pattern_iffs =
  fenced_iff inline_iff header_iff bold_iff italic_iff italic_alt_iff unordered_iff
  ordered_iff link_iff blockquote_iff table_iff rule_iff strikethrough_iff

lemma detectMessageFormat_patterns:
  "detectMessageFormat content =
     (if has_fenced_code content \<or> has_inline_code content \<or> has_header content
         \<or> has_bold content \<or> has_italic content \<or> has_italic_alt content
         \<or> has_unordered_item content \<or> has_ordered_item content \<or> has_link content
         \<or> has_blockquote content \<or> has_table_row content \<or> has_horizontal_rule content
         \<or> has_strikethrough content
      then ''markdown'' else ''text'')"
  by (simp add: detectMessageFormat_def markdownPatterns_def pattern_iffs)

lemma inline_sample_patterns:
  "map (\<lambda>pat. regex_test pat inline_code_sample) markdownPatterns =
     [False, True, False, False, False, False, False, False, False, False, False, False, False]"
  by code_simp

text \<open>
  C7, as stated: the tag is \<^verbatim>\<open>markdown\<close> exactly when the text has a fenced code block, a
  header, emphasis markers, a list item, a link, a block quote, a table, a horizontal rule
  or strikethrough. A letter between two single backticks has none of these, and is
  tagged \<^verbatim>\<open>markdown\<close>: the pattern for inline code is not in the list.
\<close>

theorem format_tag_counterexample:
  "detectMessageFormat inline_code_sample = ''markdown''
   \<and> \<not> listed_feature inline_code_sample"
  using inline_sample_patterns
  unfolding listed_feature_def has_emphasis_def has_list_item_def detectMessageFormat_def
    pattern_iffs [symmetric] markdownPatterns_def
  by simp

text \<open>
  C7, amended: the format tag is a function of the reply text alone; it is \<^verbatim>\<open>markdown\<close>
  exactly when the text contains at least one of a fenced code block, an inline code span
  (text without backticks between two backticks), a header, emphasis markers, a list item,
  a link, a block quote, a table row, a horizontal rule, or strikethrough, and \<^verbatim>\<open>text\<close>
  otherwise.
\<close>

theorem format_tag_characterisation:
  "detectMessageFormat content =
     (if listed_feature content \<or> has_inline_code content then ''markdown'' else ''text'')"
  unfolding detectMessageFormat_patterns listed_feature_def has_emphasis_def has_list_item_def
  by auto

end
